theory Spec2Isabelle
  imports Main "HOL-Library.Mapping" "HOL-Library.AList_Mapping"
begin

section \<open>Python values and variable dictionaries\<close>

text \<open>
  The module \<^verbatim>\<open>plugins/modules/gitlab_instance_variable.py\<close> works on Python dicts
  with string keys. The values it meets are \<^verbatim>\<open>None\<close>, strings and booleans.
\<close>

datatype pyval = PNone | PStr string | PBool bool

text \<open>
  A variable dict. Every key the module reads or writes is a field of its own, holding
  \<open>None\<close> when the dict has no such key and \<open>Some v\<close> when it maps the key to \<open>v\<close>
  (\<open>Some PNone\<close> is a key bound to Python's \<^verbatim>\<open>None\<close>). Every other key of the dict
  (attributes of a remote object the module does not know) lives in \<open>d_extra\<close>.
  Equality of two such records is Python's \<^verbatim>\<open>==\<close> on the dicts, which is what
  \<^verbatim>\<open>x in list\<close> uses.
\<close>

record vdict =
  d_name :: "pyval option"
  d_key :: "pyval option"
  d_value :: "pyval option"
  d_masked :: "pyval option"
  d_protected :: "pyval option"
  d_variable_type :: "pyval option"
  d_environment_scope :: "pyval option"
  d_extra :: "(string, pyval) mapping"

text \<open>\<^verbatim>\<open>d.get(k)\<close>: the value, or \<^verbatim>\<open>None\<close> for a missing key.\<close>

definition py_get :: "pyval option \<Rightarrow> pyval" where
  "py_get f = (case f of None \<Rightarrow> PNone | Some v \<Rightarrow> v)"

text \<open>\<^verbatim>\<open>str(v)\<close>.\<close>

fun py_str :: "pyval \<Rightarrow> string" where
  "py_str PNone = ''None''"
| "py_str (PStr s) = s"
| "py_str (PBool b) = (if b then ''True'' else ''False'')"

datatype error =
    KeyError string
  | NameError string
  | FailJson string
  | GitlabError
  | GitlabAuthError

record 'a return_value =
  rv_added :: "'a list"
  rv_updated :: "'a list"
  rv_removed :: "'a list"
  rv_untouched :: "'a list"

section \<open>The remote API and the call log\<close>

text \<open>
  The python-gitlab client is an external collaborator. It is a parameter of the model:
  a remote state \<open>'s\<close> with the three primitives the module calls
  (\<^verbatim>\<open>variables.list(page=n)\<close>, \<^verbatim>\<open>variables.create(var)\<close>,
  \<^verbatim>\<open>variables.delete(key, filter={'environment_scope': scope})\<close>) and the
  authentication. The listing is a finite sequence of pages: page \<open>n\<close> is the \<open>n\<close>-th
  element, and every page beyond the last is empty. \<open>create\<close> and \<open>delete\<close> return
  \<open>None\<close> when the client raises.
\<close>

record 's gitlab_api =
  api_auth :: "'s \<Rightarrow> bool"
  api_pages :: "'s \<Rightarrow> vdict list list"
  api_create :: "vdict \<Rightarrow> 's \<Rightarrow> 's option"
  api_delete :: "pyval \<Rightarrow> pyval \<Rightarrow> 's \<Rightarrow> 's option"

text \<open>
  Every call to the client is logged with its arguments and, for the mutating calls,
  whether it succeeded. The world is the remote state and the log.
\<close>

datatype call =
    AuthCall
  | ListCall nat
  | CreateCall vdict bool
  | DeleteCall pyval pyval bool

record 's world =
  remote :: 's
  calls :: "call list"

definition log_call :: "call \<Rightarrow> 's world \<Rightarrow> 's world" where
  "log_call c w = w\<lparr>calls := calls w @ [c]\<rparr>"

fun is_mutating :: "call \<Rightarrow> bool" where
  "is_mutating (CreateCall v ok) = True"
| "is_mutating (DeleteCall k sc ok) = True"
| "is_mutating c = False"

section \<open>class GitlabInstanceVariables\<close>

text \<open>\<^verbatim>\<open>self.instance.variables.list(page=page_nb)\<close>\<close>

definition variables_list :: "'s gitlab_api \<Rightarrow> nat \<Rightarrow> 's world \<Rightarrow> vdict list \<times> 's world" where
  "variables_list api page w =
     (let ps = api_pages api (remote w) in
      (if 1 \<le> page \<and> page \<le> length ps then ps ! (page - 1) else [],
       log_call (ListCall page) w))"

text \<open>The \<^verbatim>\<open>while len(vars_page) > 0\<close> loop of \<^verbatim>\<open>list_all_instance_variables\<close>.\<close>

function list_loop ::
  "'s gitlab_api \<Rightarrow> nat \<Rightarrow> vdict list \<Rightarrow> vdict list \<Rightarrow> 's world \<Rightarrow> vdict list \<times> 's world" where
  "list_loop api page_nb variables vars_page w =
     (if length vars_page > 0 then
        (case variables_list api (page_nb + 1) w of
           (vars_page', w') \<Rightarrow> list_loop api (page_nb + 1) (variables @ vars_page) vars_page' w')
      else (variables, w))"
  by pat_completeness auto
termination
  by (relation "measure (\<lambda>(api, page_nb, variables, vars_page, w).
        2 * (Suc (length (api_pages api (remote w))) - page_nb) + (if vars_page = [] then 0 else 1))")
     (auto simp: variables_list_def log_call_def Let_def split: if_splits)

declare list_loop.simps [simp del]

definition list_all_instance_variables :: "'s gitlab_api \<Rightarrow> 's world \<Rightarrow> vdict list \<times> 's world" where
  "list_all_instance_variables api w =
     (case variables_list api 1 w of (vars_page, w') \<Rightarrow> list_loop api 1 [] vars_page w')"

text \<open>The dict \<^verbatim>\<open>var\<close> that \<^verbatim>\<open>create_variable\<close> sends.\<close>

definition create_payload :: "vdict \<Rightarrow> vdict" where
  "create_payload var_obj =
     \<lparr>d_name = None,
      d_key = Some (py_get (d_key var_obj)),
      d_value = Some (py_get (d_value var_obj)),
      d_masked = Some (py_get (d_masked var_obj)),
      d_protected = Some (py_get (d_protected var_obj)),
      d_variable_type = Some (py_get (d_variable_type var_obj)),
      d_environment_scope =
        (if py_get (d_environment_scope var_obj) \<noteq> PNone
         then Some (py_get (d_environment_scope var_obj)) else None),
      d_extra = Mapping.empty\<rparr>"

definition create_variable ::
  "'s gitlab_api \<Rightarrow> bool \<Rightarrow> vdict \<Rightarrow> 's world \<Rightarrow> (error + bool) \<times> 's world" where
  "create_variable api check_mode var_obj w =
     (if check_mode then (Inr True, w)
      else let var = create_payload var_obj in
        (case api_create api var (remote w) of
           None \<Rightarrow> (Inl GitlabError, log_call (CreateCall var False) w)
         | Some s' \<Rightarrow> (Inr True, log_call (CreateCall var True) (w\<lparr>remote := s'\<rparr>))))"

definition delete_variable ::
  "'s gitlab_api \<Rightarrow> bool \<Rightarrow> vdict \<Rightarrow> 's world \<Rightarrow> (error + bool) \<times> 's world" where
  "delete_variable api check_mode var_obj w =
     (if check_mode then (Inr True, w)
      else let k = py_get (d_key var_obj); sc = py_get (d_environment_scope var_obj) in
        (case api_delete api k sc (remote w) of
           None \<Rightarrow> (Inl GitlabError, log_call (DeleteCall k sc False) w)
         | Some s' \<Rightarrow> (Inr True, log_call (DeleteCall k sc True) (w\<lparr>remote := s'\<rparr>))))"

definition update_variable ::
  "'s gitlab_api \<Rightarrow> bool \<Rightarrow> vdict \<Rightarrow> 's world \<Rightarrow> (error + bool) \<times> 's world" where
  "update_variable api check_mode var_obj w =
     (if check_mode then (Inr True, w)
      else (case delete_variable api check_mode var_obj w of
              (Inl e, w1) \<Rightarrow> (Inl e, w1)
            | (Inr d, w1) \<Rightarrow>
                (case create_variable api check_mode var_obj w1 of
                   (Inl e, w2) \<Rightarrow> (Inl e, w2)
                 | (Inr c, w2) \<Rightarrow> (Inr True, w2))))"

section \<open>compare\<close>

fun compare_loop ::
  "vdict list \<Rightarrow> (pyval \<times> pyval) list \<Rightarrow> vdict list \<Rightarrow>
   vdict list \<times> vdict list \<times> vdict list \<Rightarrow> vdict list \<times> vdict list \<times> vdict list" where
  "compare_loop existing_variables existing_key_scope_vars [] acc = acc"
| "compare_loop existing_variables existing_key_scope_vars (var # rest) (untouched, updated, added) =
     (if var \<in> set existing_variables then
        compare_loop existing_variables existing_key_scope_vars rest (untouched @ [var], updated, added)
      else
        (let compare_item = (py_get (d_name var), py_get (d_environment_scope var)) in
         if compare_item \<in> set existing_key_scope_vars then
           compare_loop existing_variables existing_key_scope_vars rest (untouched, updated @ [var], added)
         else
           compare_loop existing_variables existing_key_scope_vars rest (untouched, updated, added @ [var])))"

text \<open>
  The two-key dicts \<^verbatim>\<open>{'key': ..., 'environment_scope': ...}\<close> are pairs: two such
  dicts are equal exactly when both components are.
\<close>

definition compare ::
  "vdict list \<Rightarrow> vdict list \<Rightarrow> string \<Rightarrow> vdict list \<times> vdict list \<times> vdict list" where
  "compare requested_variables existing_variables state =
     (if state = ''present'' then
        (let existing_key_scope_vars =
               map (\<lambda>item. (py_get (d_key item), py_get (d_environment_scope item))) existing_variables
         in compare_loop existing_variables existing_key_scope_vars requested_variables ([], [], []))
      else ([], [], []))"

section \<open>filter_returned_variables\<close>

text \<open>
  Modelled from the spec: \<^verbatim>\<open>filter_returned_variables\<close> is imported from
  \<^verbatim>\<open>plugins/module_utils/gitlab.py\<close>, which is not among the sources. It copies the
  attributes of every listed object and keeps the attributes of a Variable of the
  spec's data model (key, value, masked, protected, environment_scope, variable_type);
  every other attribute is dropped.
\<close>

definition filter_attributes :: "vdict \<Rightarrow> vdict" where
  "filter_attributes x = x\<lparr>d_name := None, d_extra := Mapping.empty\<rparr>"

definition filter_returned_variables :: "vdict list \<Rightarrow> vdict list" where
  "filter_returned_variables gitlab_variables = map filter_attributes gitlab_variables"

section \<open>native_python_main\<close>

text \<open>The body of the loop that fills the defaults of one requested variable.\<close>

definition normalize_item :: "vdict \<Rightarrow> error + vdict" where
  "normalize_item item =
     (case d_name item of
        None \<Rightarrow> Inl (KeyError ''name'')
      | Some n \<Rightarrow>
          Inr (item\<lparr>d_name := None,
                    d_key := Some n,
                    d_value := Some (PStr (py_str (py_get (d_value item)))),
                    d_protected :=
                      (if py_get (d_protected item) = PNone then Some (PBool False)
                       else d_protected item),
                    d_masked :=
                      (if py_get (d_masked item) = PNone then Some (PBool False)
                       else d_masked item),
                    d_environment_scope :=
                      (if py_get (d_environment_scope item) = PNone then Some (PStr ''*'')
                       else d_environment_scope item),
                    d_variable_type :=
                      (if py_get (d_variable_type item) = PNone then Some (PStr ''env_var'')
                       else d_variable_type item)\<rparr>))"

fun normalize_loop :: "vdict list \<Rightarrow> error + vdict list" where
  "normalize_loop [] = Inr []"
| "normalize_loop (item # rest) =
     (case normalize_item item of
        Inl e \<Rightarrow> Inl e
      | Inr item' \<Rightarrow>
          (case normalize_loop rest of
             Inl e \<Rightarrow> Inl e
           | Inr rest' \<Rightarrow> Inr (item' # rest')))"

text \<open>\<^verbatim>\<open>item.pop('value'); item.pop('variable_type')\<close> over a list.\<close>

definition pop_value_and_type :: "vdict \<Rightarrow> error + vdict" where
  "pop_value_and_type item =
     (if d_value item = None then Inl (KeyError ''value'')
      else if d_variable_type item = None then Inl (KeyError ''variable_type'')
      else Inr (item\<lparr>d_value := None, d_variable_type := None\<rparr>))"

fun pop_loop :: "vdict list \<Rightarrow> error + vdict list" where
  "pop_loop [] = Inr []"
| "pop_loop (item # rest) =
     (case pop_value_and_type item of
        Inl e \<Rightarrow> Inl e
      | Inr item' \<Rightarrow>
          (case pop_loop rest of
             Inl e \<Rightarrow> Inl e
           | Inr rest' \<Rightarrow> Inr (item' # rest')))"

text \<open>
  \<^verbatim>\<open>for item in add_or_update: try: create ... except Exception: update ...\<close>
\<close>

fun add_or_update_loop ::
  "'s gitlab_api \<Rightarrow> bool \<Rightarrow> vdict list \<Rightarrow> vdict return_value \<Rightarrow> 's world \<Rightarrow>
   (error + vdict return_value) \<times> 's world" where
  "add_or_update_loop api check_mode [] rv w = (Inr rv, w)"
| "add_or_update_loop api check_mode (item # rest) rv w =
     (case create_variable api check_mode item w of
        (Inr c, w1) \<Rightarrow>
          add_or_update_loop api check_mode rest
            (if c then rv\<lparr>rv_added := rv_added rv @ [item]\<rparr> else rv) w1
      | (Inl e, w1) \<Rightarrow>
          (case update_variable api check_mode item w1 of
             (Inr u, w2) \<Rightarrow>
               add_or_update_loop api check_mode rest
                 (if u then rv\<lparr>rv_updated := rv_updated rv @ [item]\<rparr> else rv) w2
           | (Inl e2, w2) \<Rightarrow> (Inl e2, w2)))"

text \<open>
  \<^verbatim>\<open>for item in ...: if this_gitlab.delete_variable(item): return_value['removed'].append(item)\<close>
\<close>

fun remove_loop ::
  "'s gitlab_api \<Rightarrow> bool \<Rightarrow> vdict list \<Rightarrow> vdict return_value \<Rightarrow> 's world \<Rightarrow>
   (error + vdict return_value) \<times> 's world" where
  "remove_loop api check_mode [] rv w = (Inr rv, w)"
| "remove_loop api check_mode (item # rest) rv w =
     (case delete_variable api check_mode item w of
        (Inr d, w1) \<Rightarrow>
          remove_loop api check_mode rest
            (if d then rv\<lparr>rv_removed := rv_removed rv @ [item]\<rparr> else rv) w1
      | (Inl e, w1) \<Rightarrow> (Inl e, w1))"

text \<open>The branch \<^verbatim>\<open>if state == 'present'\<close>.\<close>

definition state_present ::
  "'s gitlab_api \<Rightarrow> bool \<Rightarrow> bool \<Rightarrow> vdict list \<Rightarrow> vdict list \<Rightarrow> vdict return_value \<Rightarrow>
   's world \<Rightarrow> (error + vdict return_value) \<times> 's world" where
  "state_present api check_mode purge requested_variables existing_variables rv w =
     (let add_or_update = filter (\<lambda>x. x \<notin> set existing_variables) requested_variables in
      case add_or_update_loop api check_mode add_or_update rv w of
        (Inl e, w1) \<Rightarrow> (Inl e, w1)
      | (Inr rv1, w1) \<Rightarrow>
          if purge then
            (case list_all_instance_variables api w1 of
               (gitlab_keys, w2) \<Rightarrow>
                 (let existing_variables' = filter_returned_variables gitlab_keys;
                      remove = filter (\<lambda>x. x \<notin> set requested_variables) existing_variables'
                  in remove_loop api check_mode remove rv1 w2))
          else (Inr rv1, w1))"

text \<open>The branch \<^verbatim>\<open>elif state == 'absent'\<close>.\<close>

definition state_absent ::
  "'s gitlab_api \<Rightarrow> bool \<Rightarrow> bool \<Rightarrow> vdict list \<Rightarrow> vdict list \<Rightarrow> vdict return_value \<Rightarrow>
   's world \<Rightarrow> (error + vdict return_value) \<times> 's world" where
  "state_absent api check_mode purge requested_variables existing_variables rv w =
     (case pop_loop existing_variables of
        Inl e \<Rightarrow> (Inl e, w)
      | Inr existing_variables' \<Rightarrow>
          (case pop_loop requested_variables of
             Inl e \<Rightarrow> (Inl e, w)
           | Inr requested_variables' \<Rightarrow>
               if \<not> purge then
                 (let remove_requested =
                        filter (\<lambda>x. x \<in> set existing_variables') requested_variables'
                  in remove_loop api check_mode remove_requested rv w)
               else remove_loop api check_mode existing_variables' rv w))"

definition empty_return_value :: "vdict return_value" where
  "empty_return_value = \<lparr>rv_added = [], rv_updated = [], rv_removed = [], rv_untouched = []\<rparr>"

text \<open>
  The result is \<^verbatim>\<open>(change, return_value, before, after)\<close>. The three lists of
  \<^verbatim>\<open>compare\<close> are bound only in check mode, and read only there.
\<close>

definition native_python_main ::
  "'s gitlab_api \<Rightarrow> bool \<Rightarrow> vdict list \<Rightarrow> string \<Rightarrow> bool \<Rightarrow> 's world \<Rightarrow>
   (error + bool \<times> vdict return_value \<times> vdict list \<times> vdict list) \<times> 's world" where
  "native_python_main api purge requested_variables0 state check_mode w0 =
     (case list_all_instance_variables api w0 of (before, w1) \<Rightarrow>
      case list_all_instance_variables api w1 of (gitlab_keys, w2) \<Rightarrow>
      let existing_variables = filter_returned_variables gitlab_keys in
      case normalize_loop requested_variables0 of
        Inl e \<Rightarrow> (Inl e, w2)
      | Inr requested_variables \<Rightarrow>
          (let cmp = (if check_mode then compare requested_variables existing_variables state
                      else ([], [], []))
           in
           case (if state = ''present'' then
                   state_present api check_mode purge requested_variables existing_variables
                     empty_return_value w2
                 else if state = ''absent'' then
                   state_absent api check_mode purge requested_variables existing_variables
                     empty_return_value w2
                 else (Inr empty_return_value, w2)) of
             (Inl e, w3) \<Rightarrow> (Inl e, w3)
           | (Inr rv, w3) \<Rightarrow>
               (let return_value =
                      (if check_mode then
                         (case cmp of (untouched, updated, added) \<Rightarrow>
                            \<lparr>rv_added = added, rv_updated = updated,
                             rv_removed = rv_removed rv, rv_untouched = untouched\<rparr>)
                       else rv);
                    change =
                      (length (rv_added return_value @ rv_removed return_value
                               @ rv_updated return_value) > 0)
                in
                case list_all_instance_variables api w3 of (after, w4) \<Rightarrow>
                  (Inr (change, return_value, before, after), w4))))"

section \<open>main\<close>

text \<open>
  The parameters \<^verbatim>\<open>main\<close> reads from \<^verbatim>\<open>module.params\<close>, and the check mode of the
  module. The model starts where the argument parsing of the host has passed and
  \<^verbatim>\<open>ensure_gitlab_package\<close> has found the client library.
\<close>

record params =
  p_purge :: bool
  p_vars :: "(string \<times> pyval) list"
  p_variables :: "vdict list"
  p_state :: string
  p_check_mode :: bool

text \<open>\<^verbatim>\<open>any(x['value'] is None for x in variables)\<close>: the subscript raises on a missing key.\<close>

fun any_value_is_None :: "vdict list \<Rightarrow> error + bool" where
  "any_value_is_None [] = Inr False"
| "any_value_is_None (x # rest) =
     (case d_value x of
        None \<Rightarrow> Inl (KeyError ''value'')
      | Some v \<Rightarrow> if v = PNone then Inr True else any_value_is_None rest)"

definition gitlab_authentication :: "'s gitlab_api \<Rightarrow> 's world \<Rightarrow> (error + unit) \<times> 's world" where
  "gitlab_authentication api w =
     (if api_auth api (remote w) then (Inr (), log_call AuthCall w)
      else (Inl GitlabAuthError, log_call AuthCall w))"

text \<open>
  What \<^verbatim>\<open>main\<close> does after \<^verbatim>\<open>native_python_main\<close> has returned: the lists of key
  names handed to \<^verbatim>\<open>exit_json\<close>.
\<close>

definition postprocess ::
  "bool \<Rightarrow> bool \<times> vdict return_value \<times> vdict list \<times> vdict list \<Rightarrow> bool \<times> pyval return_value" where
  "postprocess check_mode r =
     (case r of (changed, raw_return_value, before, after) \<Rightarrow>
        (let raw_untouched =
               (if \<not> check_mode then filter (\<lambda>x. x \<in> set after) before
                else rv_untouched raw_return_value);
             untouched_get =
               (if \<not> check_mode then (\<lambda>x. py_get (d_name x)) else (\<lambda>x. py_get (d_key x)))
         in (changed,
             \<lparr>rv_added = map (\<lambda>x. py_get (d_key x)) (rv_added raw_return_value),
              rv_updated = map (\<lambda>x. py_get (d_key x)) (rv_updated raw_return_value),
              rv_removed = map (\<lambda>x. py_get (d_key x)) (rv_removed raw_return_value),
              rv_untouched = map untouched_get raw_untouched\<rparr>)))"

text \<open>
  \<^verbatim>\<open>vars_to_variables\<close> is neither defined nor imported by the module, so the branch
  for a non-empty \<^verbatim>\<open>vars\<close> raises a NameError.
\<close>

definition main ::
  "'s gitlab_api \<Rightarrow> params \<Rightarrow> 's world \<Rightarrow> (error + bool \<times> pyval return_value) \<times> 's world" where
  "main api p w =
     (if p_vars p \<noteq> [] then (Inl (NameError ''vars_to_variables''), w)
      else
        (let variables = p_variables p in
         case (if p_state p = ''present'' then any_value_is_None variables else Inr False) of
           Inl e \<Rightarrow> (Inl e, w)
         | Inr True \<Rightarrow> (Inl (FailJson ''value parameter is required in state present''), w)
         | Inr False \<Rightarrow>
             (case gitlab_authentication api w of
                (Inl e, w1) \<Rightarrow> (Inl e, w1)
              | (Inr u, w1) \<Rightarrow>
                  (case native_python_main api (p_purge p) variables (p_state p) (p_check_mode p) w1 of
                     (Inl e, w2) \<Rightarrow> (Inl e, w2)
                   | (Inr r, w2) \<Rightarrow> (Inr (postprocess (p_check_mode p) r), w2)))))"

section \<open>A reference server\<close>

text \<open>
  The GitLab server behind the client, as the spec's data model describes it: the
  remote set is a list of attribute dicts in which the pair (key, environment_scope)
  identifies a variable. Creating a variable whose pair is taken fails; otherwise the
  server stores the attributes it was sent. Deleting removes the variable with the given
  pair and fails when there is none. The listing is cut into pages of \<open>per_page\<close>
  entries.
\<close>

definition var_id :: "vdict \<Rightarrow> pyval \<times> pyval" where
  "var_id v = (py_get (d_key v), py_get (d_environment_scope v))"

function paginate :: "nat \<Rightarrow> 'a list \<Rightarrow> 'a list list" where
  "paginate per_page xs =
     (if per_page = 0 \<or> xs = [] then []
      else take per_page xs # paginate per_page (drop per_page xs))"
  by pat_completeness auto
termination
  by (relation "measure (\<lambda>(per_page, xs). length xs)") auto

declare paginate.simps [simp del]

definition server_create :: "vdict \<Rightarrow> vdict list \<Rightarrow> vdict list option" where
  "server_create var s =
     (if var_id var \<in> set (map var_id s) then None else Some (s @ [var]))"

definition server_delete :: "pyval \<Rightarrow> pyval \<Rightarrow> vdict list \<Rightarrow> vdict list option" where
  "server_delete k sc s =
     (if (k, sc) \<in> set (map var_id s) then Some (filter (\<lambda>x. var_id x \<noteq> (k, sc)) s)
      else None)"

definition server_api :: "nat \<Rightarrow> vdict list gitlab_api" where
  "server_api per_page =
     \<lparr>api_auth = (\<lambda>s. True),
      api_pages = paginate per_page,
      api_create = server_create,
      api_delete = server_delete\<rparr>"

text \<open>
  A requested variable as the argument parser hands it over (every declared option is a
  key), and a variable as the reference server stores it.
\<close>

definition request :: "string \<Rightarrow> pyval \<Rightarrow> bool \<Rightarrow> vdict" where
  "request n v m =
     \<lparr>d_name = Some (PStr n), d_key = None, d_value = Some v,
      d_masked = Some (PBool m), d_protected = Some (PBool False),
      d_variable_type = Some (PStr ''env_var''), d_environment_scope = Some (PStr ''*''),
      d_extra = Mapping.empty\<rparr>"

definition stored :: "string \<Rightarrow> string \<Rightarrow> bool \<Rightarrow> vdict" where
  "stored k v m =
     \<lparr>d_name = None, d_key = Some (PStr k), d_value = Some (PStr v),
      d_masked = Some (PBool m), d_protected = Some (PBool False),
      d_variable_type = Some (PStr ''env_var''), d_environment_scope = Some (PStr ''*''),
      d_extra = Mapping.empty\<rparr>"

definition example_remote :: "vdict list world" where
  "example_remote = \<lparr>remote = [stored ''FOO'' ''1'' False], calls = []\<rparr>"

definition example_remote_old :: "vdict list world" where
  "example_remote_old =
     \<lparr>remote = [stored ''FOO'' ''1'' False, stored ''OLD'' ''z'' False], calls = []\<rparr>"

definition duplicate_requests :: "vdict list" where
  "duplicate_requests = [request ''FOO'' (PStr ''1'') False, request ''FOO'' (PStr ''2'') False]"

definition empty_remote :: "vdict list world" where
  "empty_remote = \<lparr>remote = [], calls = []\<rparr>"

definition example_requests :: "vdict list" where
  "example_requests = [request ''FOO'' (PStr ''2'') False, request ''BAR'' (PStr ''x'') False]"

section \<open>Notions the properties are stated with\<close>

text \<open>The pages a sweep reads before it meets an empty one.\<close>

definition nonempty_prefix :: "'a list list \<Rightarrow> 'a list list" where
  "nonempty_prefix ps = takeWhile (\<lambda>p. p \<noteq> []) ps"

definition page_at :: "'a list list \<Rightarrow> nat \<Rightarrow> 'a list" where
  "page_at ps p = (if 1 \<le> p \<and> p \<le> length ps then ps ! (p - 1) else [])"

text \<open>The log of \<open>n\<close> listing calls for the pages \<open>p, p + 1, ...\<close>.\<close>

definition list_calls :: "nat \<Rightarrow> nat \<Rightarrow> call list" where
  "list_calls p n = map ListCall [p ..< p + n]"

text \<open>
  What the log shows for one candidate of the apply phase: a create that succeeded, or a
  create that failed followed by the delete and the create of \<^verbatim>\<open>update_variable\<close>.
\<close>

definition apply_trace :: "vdict \<times> bool \<Rightarrow> call list" where
  "apply_trace ic =
     (case ic of (item, created) \<Rightarrow>
        if created then [CreateCall (create_payload item) True]
        else [CreateCall (create_payload item) False,
              DeleteCall (py_get (d_key item)) (py_get (d_environment_scope item)) True,
              CreateCall (create_payload item) True])"

fun is_create :: "call \<Rightarrow> bool" where
  "is_create (CreateCall v ok) = True"
| "is_create c = False"

text \<open>
  The remote set of the reference server after the apply phase has worked through the
  candidates: each candidate replaces the variable with its pair, or is appended.
\<close>

fun server_apply :: "vdict list \<Rightarrow> vdict list \<Rightarrow> vdict list" where
  "server_apply s [] = s"
| "server_apply s (c # cs) =
     server_apply (filter (\<lambda>x. var_id x \<noteq> var_id c) s @ [create_payload c]) cs"

text \<open>Between \<open>w\<close> and \<open>w'\<close> the remote is the same and no mutating call was logged.\<close>

definition reads_only :: "'s world \<Rightarrow> 's world \<Rightarrow> bool" where
  "reads_only w w' = (remote w' = remote w \<and> (\<exists>l. calls w' = calls w @ l \<and> \<not> list_ex is_mutating l))"

text \<open>The log of \<open>w'\<close> continues the log of \<open>w\<close>.\<close>

definition extends_log :: "'s world \<Rightarrow> 's world \<Rightarrow> bool" where
  "extends_log w w' = (\<exists>l. calls w' = calls w @ l)"

section \<open>The listing\<close>

lemma nonempty_prefix_Nil [simp]: "nonempty_prefix [] = []"
  by (simp add: nonempty_prefix_def)

lemma list_calls_0 [simp]: "list_calls p 0 = []"
  by (simp add: list_calls_def)

lemma list_calls_Suc: "list_calls p (Suc n) = ListCall p # list_calls (Suc p) n"
  by (simp add: list_calls_def upt_conv_Cons del: upt_Suc)

lemma variables_list_eq:
  "variables_list api p w = (page_at (api_pages api (remote w)) p, log_call (ListCall p) w)"
  by (simp add: variables_list_def page_at_def Let_def)

lemma nonempty_prefix_drop:
  assumes "Suc 0 \<le> p"
  shows "nonempty_prefix (drop (p - Suc 0) ps) =
     (if page_at ps p = [] then [] else page_at ps p # nonempty_prefix (drop p ps))"
proof (cases "p \<le> length ps")
  case True
  then have "drop (p - Suc 0) ps = ps ! (p - Suc 0) # drop p ps"
    using Cons_nth_drop_Suc[of "p - Suc 0" ps] assms by simp
  then show ?thesis using True assms by (simp add: nonempty_prefix_def page_at_def)
next
  case False
  then show ?thesis by (simp add: nonempty_prefix_def page_at_def)
qed

lemma list_loop_sweep:
  assumes "1 \<le> p"
  shows "list_loop api p acc (page_at (api_pages api (remote w)) p) w =
     (acc @ concat (nonempty_prefix (drop (p - 1) (api_pages api (remote w)))),
      w\<lparr>calls := calls w @
           list_calls (p + 1) (length (nonempty_prefix (drop (p - 1) (api_pages api (remote w)))))\<rparr>)"
  using assms
proof (induction "Suc (length (api_pages api (remote w))) - p" arbitrary: p acc w)
  case 0
  then have "page_at (api_pages api (remote w)) p = []" by (simp add: page_at_def)
  then show ?case using 0 by (subst list_loop.simps) (simp add: nonempty_prefix_drop)
next
  case (Suc n)
  let ?ps = "api_pages api (remote w)"
  show ?case
  proof (cases "page_at ?ps p = []")
    case True
    then show ?thesis using Suc.prems by (subst list_loop.simps) (simp add: nonempty_prefix_drop)
  next
    case False
    let ?w' = "log_call (ListCall (p + 1)) w"
    have rem: "remote ?w' = remote w" by (simp add: log_call_def)
    have IH: "list_loop api (p + 1) (acc @ page_at ?ps p) (page_at ?ps (p + 1)) ?w' =
       ((acc @ page_at ?ps p) @ concat (nonempty_prefix (drop p ?ps)),
        ?w'\<lparr>calls := calls ?w' @ list_calls (p + 2) (length (nonempty_prefix (drop p ?ps)))\<rparr>)"
      using Suc.hyps(1)[of ?w' "p + 1" "acc @ page_at ?ps p"] Suc.hyps(2) rem by simp
    have "list_loop api p acc (page_at ?ps p) w =
          list_loop api (p + 1) (acc @ page_at ?ps p) (page_at ?ps (p + 1)) ?w'"
      using False by (subst list_loop.simps) (simp add: variables_list_eq)
    also note IH
    finally show ?thesis using False Suc.prems
      by (simp add: nonempty_prefix_drop log_call_def list_calls_Suc)
  qed
qed

lemma list_all_instance_variables_sweep:
  "list_all_instance_variables api w =
     (concat (nonempty_prefix (api_pages api (remote w))),
      w\<lparr>calls := calls w @
           list_calls 1 (Suc (length (nonempty_prefix (api_pages api (remote w)))))\<rparr>)"
  using list_loop_sweep[of 1 api "[]" "log_call (ListCall 1) w"]
  by (simp add: list_all_instance_variables_def variables_list_eq log_call_def list_calls_Suc)

section \<open>The call log only grows\<close>

lemma extends_log_refl [simp]: "extends_log w w"
  by (simp add: extends_log_def)

lemma extends_log_trans: "extends_log a b \<Longrightarrow> extends_log b c \<Longrightarrow> extends_log a c"
  by (auto simp: extends_log_def)

lemma extends_log_log_call [simp]: "extends_log w (log_call c w)"
  by (simp add: extends_log_def log_call_def)

lemma extends_log_remote [simp]: "extends_log w (w'\<lparr>remote := s\<rparr>) = extends_log w w'"
  by (simp add: extends_log_def)

lemma extends_log_remote_log [simp]: "extends_log w (log_call c (w\<lparr>remote := s\<rparr>))"
  by (simp add: extends_log_def log_call_def)

lemma extends_list_all: "list_all_instance_variables api w = (xs, w') \<Longrightarrow> extends_log w w'"
  by (auto simp: list_all_instance_variables_sweep extends_log_def)

lemma extends_create: "create_variable api cm v w = (r, w') \<Longrightarrow> extends_log w w'"
  by (auto simp: create_variable_def Let_def split: if_splits option.splits)

lemma extends_delete: "delete_variable api cm v w = (r, w') \<Longrightarrow> extends_log w w'"
  by (auto simp: delete_variable_def Let_def split: if_splits option.splits)

lemma extends_update: "update_variable api cm v w = (r, w') \<Longrightarrow> extends_log w w'"
  by (auto simp: update_variable_def split: if_splits prod.splits sum.splits
           dest!: extends_delete extends_create intro: extends_log_trans)

lemma extends_add_or_update_loop:
  "add_or_update_loop api cm items rv w = (r, w') \<Longrightarrow> extends_log w w'"
proof (induction items arbitrary: rv w)
  case Nil
  then show ?case by simp
next
  case (Cons item rest)
  then show ?case
    by (auto split: prod.splits sum.splits if_splits
             dest!: extends_create extends_update intro: extends_log_trans)
qed

lemma extends_remove_loop:
  "remove_loop api cm items rv w = (r, w') \<Longrightarrow> extends_log w w'"
proof (induction items arbitrary: rv w)
  case Nil
  then show ?case by simp
next
  case (Cons item rest)
  then show ?case
    by (auto split: prod.splits sum.splits if_splits
             dest!: extends_delete intro: extends_log_trans)
qed

lemma extends_state_present:
  "state_present api cm purge req ex rv w = (r, w') \<Longrightarrow> extends_log w w'"
  by (auto simp: state_present_def Let_def split: prod.splits sum.splits if_splits
           dest!: extends_add_or_update_loop extends_remove_loop extends_list_all
           intro: extends_log_trans)

lemma extends_state_absent:
  "state_absent api cm purge req ex rv w = (r, w') \<Longrightarrow> extends_log w w'"
  by (auto simp: state_absent_def Let_def split: prod.splits sum.splits if_splits
           dest!: extends_remove_loop)

lemma extends_native_python_main:
  assumes "list_all_instance_variables api w = (before, w1)"
  shows "extends_log w1 (snd (native_python_main api purge req st cm w))"
  using assms
  by (auto simp: native_python_main_def Let_def split: prod.splits sum.splits if_splits
           dest!: extends_state_present extends_state_absent extends_list_all
           intro: extends_log_trans)

section \<open>Pagination (C9)\<close>

text \<open>
  C9. The listing asks for page 1, then for the next page as long as the page it got was
  not empty, and returns the concatenation of the non-empty pages it read: with \<open>n\<close>
  such pages the log grows by the calls for the pages \<open>1, ..., n + 1\<close>. In
  \<^verbatim>\<open>native_python_main\<close> this complete sweep is the first thing that happens: its
  calls stand in the log before every other call of the run, so the aggregate is there
  before anything is compared or changed.
\<close>

theorem list_all_instance_variables_pages:
  "list_all_instance_variables api w =
     (concat (nonempty_prefix (api_pages api (remote w))),
      w\<lparr>calls := calls w @
           list_calls 1 (Suc (length (nonempty_prefix (api_pages api (remote w)))))\<rparr>)
   \<and> (\<exists>rest. calls (snd (native_python_main api purge requested_variables state check_mode w)) =
         calls w @ list_calls 1 (Suc (length (nonempty_prefix (api_pages api (remote w))))) @ rest)"
proof
  show "list_all_instance_variables api w =
     (concat (nonempty_prefix (api_pages api (remote w))),
      w\<lparr>calls := calls w @
           list_calls 1 (Suc (length (nonempty_prefix (api_pages api (remote w)))))\<rparr>)"
    by (rule list_all_instance_variables_sweep)
  then have "extends_log
      (w\<lparr>calls := calls w @
           list_calls 1 (Suc (length (nonempty_prefix (api_pages api (remote w)))))\<rparr>)
      (snd (native_python_main api purge requested_variables state check_mode w))"
    by (rule extends_native_python_main)
  then show "\<exists>rest. calls (snd (native_python_main api purge requested_variables state check_mode w)) =
         calls w @ list_calls 1 (Suc (length (nonempty_prefix (api_pages api (remote w))))) @ rest"
    by (simp add: extends_log_def)
qed

section \<open>The result of an invocation\<close>

lemma compare_not_present: "state \<noteq> ''present'' \<Longrightarrow> compare req ex state = ([], [], [])"
  by (simp add: compare_def)

lemma native_python_main_change:
  "native_python_main api purge req st cm w = (Inr (change, rv, before, after), w') \<Longrightarrow>
   change = (rv_added rv @ rv_updated rv @ rv_removed rv \<noteq> [])"
  by (auto simp: native_python_main_def Let_def split: prod.splits sum.splits if_splits)

lemma native_python_main_check_absent:
  "native_python_main api purge req ''absent'' True w = (Inr (change, rv, before, after), w') \<Longrightarrow>
   rv_added rv = [] \<and> rv_updated rv = [] \<and> rv_untouched rv = []"
  by (auto simp: native_python_main_def Let_def compare_def split: prod.splits sum.splits if_splits)

lemma main_Inr:
  assumes "main api p w = (Inr r, w')"
  shows "p_vars p = [] \<and> api_auth api (remote w) \<and>
     (\<exists>r0. native_python_main api (p_purge p) (p_variables p) (p_state p) (p_check_mode p)
             (log_call AuthCall w) = (Inr r0, w')
        \<and> r = postprocess (p_check_mode p) r0)"
proof -
  have v: "p_vars p = []" using assms by (auto simp: main_def split: if_splits)
  have a: "gitlab_authentication api w = (Inr (), log_call AuthCall w)"
    using assms v
    by (auto simp: main_def gitlab_authentication_def Let_def
             split: prod.splits sum.splits if_splits bool.splits)
  then have au: "api_auth api (remote w)"
    by (auto simp: gitlab_authentication_def split: if_splits)
  obtain r1 w2 where n: "native_python_main api (p_purge p) (p_variables p) (p_state p)
      (p_check_mode p) (log_call AuthCall w) = (r1, w2)" by force
  from assms v a n have "r1 = Inr (projr r1) \<and> w2 = w' \<and> r = postprocess (p_check_mode p) (projr r1)"
    by (auto simp: main_def Let_def split: sum.splits if_splits bool.splits)
  with n v au show ?thesis by metis
qed

text \<open>
  C6. Whenever \<^verbatim>\<open>main\<close> exits with a result, its \<^verbatim>\<open>changed\<close> flag is true
  exactly when the concatenation of the added, updated and removed lists is not empty.
\<close>

theorem changed_iff_lists_nonempty:
  "main api p w = (Inr (changed, out), w') \<Longrightarrow>
   changed = (rv_added out @ rv_updated out @ rv_removed out \<noteq> [])"
  by (auto dest!: main_Inr native_python_main_change simp: postprocess_def Let_def split: prod.splits)

theorem changed_iff_lists_nonempty_witness:
  "fst (main (server_api 20)
     \<lparr>p_purge = False, p_vars = [], p_variables = [request ''FOO'' (PStr ''2'') False],
      p_state = ''present'', p_check_mode = False\<rparr> example_remote) =
   Inr (True, \<lparr>rv_added = [], rv_updated = [PStr ''FOO''], rv_removed = [], rv_untouched = []\<rparr>)
   \<and> True = (rv_added \<lparr>rv_added = [], rv_updated = [PStr ''FOO''], rv_removed = [], rv_untouched = []\<rparr>
             @ rv_updated \<lparr>rv_added = [], rv_updated = [PStr ''FOO''], rv_removed = [], rv_untouched = []\<rparr>
             @ rv_removed \<lparr>rv_added = [], rv_updated = [PStr ''FOO''], rv_removed = [], rv_untouched = []\<rparr> \<noteq> [])"
proof -
  let ?p = "\<lparr>p_purge = False, p_vars = [], p_variables = [request ''FOO'' (PStr ''2'') False],
      p_state = ''present'', p_check_mode = False\<rparr>"
  let ?out = "\<lparr>rv_added = [], rv_updated = [PStr ''FOO''], rv_removed = [], rv_untouched = []\<rparr>"
  have f: "fst (main (server_api 20) ?p example_remote) = Inr (True, ?out)"
    by code_simp
  then have h: "main (server_api 20) ?p example_remote =
      (Inr (True, ?out), snd (main (server_api 20) ?p example_remote))"
    by (metis prod.collapse)
  show ?thesis using f changed_iff_lists_nonempty[OF h] by simp
qed

text \<open>
  C10. \<^verbatim>\<open>compare\<close> returns three empty lists for every state other than
  \<^verbatim>\<open>'present'\<close>; so a check-mode invocation with state \<^verbatim>\<open>'absent'\<close> reports
  empty added, updated and untouched lists, whatever is requested and whatever the
  remote holds.
\<close>

theorem compare_empty_unless_present:
  "(state \<noteq> ''present'' \<longrightarrow> compare requested_variables existing_variables state = ([], [], []))
   \<and> (p_check_mode p \<and> p_state p = ''absent'' \<and> main api p w = (Inr (changed, out), w') \<longrightarrow>
        rv_added out = [] \<and> rv_updated out = [] \<and> rv_untouched out = [])"
  by (auto dest!: main_Inr native_python_main_check_absent
           simp: compare_not_present postprocess_def Let_def split: prod.splits)

theorem compare_empty_unless_present_witness:
  "compare [stored ''FOO'' ''2'' False] [stored ''FOO'' ''1'' False] ''absent'' = ([], [], [])
   \<and> fst (main (server_api 20)
     \<lparr>p_purge = False, p_vars = [], p_variables = [request ''FOO'' PNone False],
      p_state = ''absent'', p_check_mode = True\<rparr> example_remote) =
   Inr (True, \<lparr>rv_added = [], rv_updated = [], rv_removed = [PStr ''FOO''], rv_untouched = []\<rparr>)"
proof -
  let ?p = "\<lparr>p_purge = False, p_vars = [], p_variables = [request ''FOO'' PNone False],
      p_state = ''absent'', p_check_mode = True\<rparr>"
  let ?out = "\<lparr>rv_added = [], rv_updated = [], rv_removed = [PStr ''FOO''], rv_untouched = []\<rparr>"
  have f: "fst (main (server_api 20) ?p example_remote) = Inr (True, ?out)"
    by code_simp
  then have h: "main (server_api 20) ?p example_remote =
      (Inr (True, ?out), snd (main (server_api 20) ?p example_remote))"
    by (metis prod.collapse)
  have "''absent'' \<noteq> ''present''" by simp
  with f compare_empty_unless_present
    [of "''absent''" "[stored ''FOO'' ''2'' False]" "[stored ''FOO'' ''1'' False]" ?p "server_api 20" example_remote True ?out
        "snd (main (server_api 20) ?p example_remote)"] h
  show ?thesis by simp
qed

section \<open>Validation\<close>

lemma any_value_is_None_True:
  "list_all (\<lambda>x. d_value x \<noteq> None) xs \<Longrightarrow> list_ex (\<lambda>x. d_value x = Some PNone) xs \<Longrightarrow>
   any_value_is_None xs = Inr True"
  by (induction xs) (auto split: option.splits)

text \<open>
  The \<^verbatim>\<open>variables\<close> path. With state \<^verbatim>\<open>'present'\<close>, when one of the dicts in
  \<^verbatim>\<open>variables\<close> has the value \<^verbatim>\<open>None\<close> (every dict carries the key
  \<^verbatim>\<open>value\<close>, as the argument parser guarantees), the invocation fails and the world
  is the one it started from: no authentication, no listing, no other call. When
  \<^verbatim>\<open>vars\<close> is empty the failure is the validation message of \<^verbatim>\<open>fail_json\<close>.
\<close>

lemma missing_value_fails_before_any_call:
  assumes "p_state p = ''present''"
    and "list_all (\<lambda>x. d_value x \<noteq> None) (p_variables p)"
    and "list_ex (\<lambda>x. d_value x = Some PNone) (p_variables p)"
  shows "(\<exists>e. main api p w = (Inl e, w))
     \<and> (p_vars p = [] \<longrightarrow>
          main api p w = (Inl (FailJson ''value parameter is required in state present''), w))"
  using assms any_value_is_None_True[of "p_variables p"]
  by (simp add: main_def Let_def)

lemma missing_value_fails_before_any_call_witness:
  "main (server_api 20)
     \<lparr>p_purge = False, p_vars = [], p_variables = [request ''FOO'' PNone False],
      p_state = ''present'', p_check_mode = False\<rparr> example_remote =
   (Inl (FailJson ''value parameter is required in state present''), example_remote)"
  using missing_value_fails_before_any_call
    [of "\<lparr>p_purge = False, p_vars = [], p_variables = [request ''FOO'' PNone False],
      p_state = ''present'', p_check_mode = False\<rparr>" "server_api 20" example_remote]
  by (simp add: request_def)

text \<open>
  The legacy \<^verbatim>\<open>vars\<close> path. Whatever the state and whatever the values, a non-empty
  \<^verbatim>\<open>vars\<close> ends the invocation with the NameError of the call to
  \<^verbatim>\<open>vars_to_variables\<close>, before the check for a missing value is reached.
\<close>

lemma legacy_vars_always_NameError:
  "p_vars p \<noteq> [] \<Longrightarrow> main api p w = (Inl (NameError ''vars_to_variables''), w)"
  by (simp add: main_def)

section \<open>The apply phase of state present (C1)\<close>

lemma apply_trace_simps [simp]:
  "apply_trace (item, True) = [CreateCall (create_payload item) True]"
  "apply_trace (item, False) =
     [CreateCall (create_payload item) False,
      DeleteCall (py_get (d_key item)) (py_get (d_environment_scope item)) True,
      CreateCall (create_payload item) True]"
  by (simp_all add: apply_trace_def)

lemma create_variable_real_Inr:
  "create_variable api False item w = (Inr c, w1) \<Longrightarrow>
   c \<and> calls w1 = calls w @ [CreateCall (create_payload item) True]"
  by (auto simp: create_variable_def Let_def log_call_def split: option.splits)

lemma create_variable_real_Inl:
  "create_variable api False item w = (Inl e, w1) \<Longrightarrow>
   remote w1 = remote w \<and> calls w1 = calls w @ [CreateCall (create_payload item) False]"
  by (auto simp: create_variable_def Let_def log_call_def split: option.splits)

lemma delete_variable_real_Inr:
  "delete_variable api False item w = (Inr d, w1) \<Longrightarrow>
   d \<and> calls w1 = calls w @ [DeleteCall (py_get (d_key item)) (py_get (d_environment_scope item)) True]"
  by (auto simp: delete_variable_def Let_def log_call_def split: option.splits)

lemma update_variable_real_Inr:
  "update_variable api False item w = (Inr u, w2) \<Longrightarrow>
   u \<and> calls w2 = calls w @
     [DeleteCall (py_get (d_key item)) (py_get (d_environment_scope item)) True,
      CreateCall (create_payload item) True]"
  by (auto simp: update_variable_def split: prod.splits sum.splits
           dest!: delete_variable_real_Inr create_variable_real_Inr)

lemma add_or_update_loop_trace:
  "add_or_update_loop api False items rv w = (Inr rv', w') \<Longrightarrow>
   \<exists>outs. length outs = length items
     \<and> rv' = rv\<lparr>rv_added := rv_added rv @ map fst (filter snd (zip items outs)),
               rv_updated := rv_updated rv @ map fst (filter (\<lambda>ic. \<not> snd ic) (zip items outs))\<rparr>
     \<and> calls w' = calls w @ concat (map apply_trace (zip items outs))"
proof (induction items arbitrary: rv w)
  case Nil
  then show ?case by simp
next
  case (Cons item rest)
  obtain r1 w1 where c: "create_variable api False item w = (r1, w1)" by force
  show ?case
  proof (cases r1)
    case (Inr ok)
    with c have ok: "ok" and l1: "calls w1 = calls w @ [CreateCall (create_payload item) True]"
      using create_variable_real_Inr by blast+
    from Cons.prems c Inr ok
    have "add_or_update_loop api False rest (rv\<lparr>rv_added := rv_added rv @ [item]\<rparr>) w1 = (Inr rv', w')"
      by simp
    from Cons.IH[OF this] obtain outs where
      o: "length outs = length rest"
      "rv' = rv\<lparr>rv_added := rv_added rv @ [item]\<rparr>
          \<lparr>rv_added := rv_added (rv\<lparr>rv_added := rv_added rv @ [item]\<rparr>) @ map fst (filter snd (zip rest outs)),
           rv_updated := rv_updated (rv\<lparr>rv_added := rv_added rv @ [item]\<rparr>) @ map fst (filter (\<lambda>ic. \<not> snd ic) (zip rest outs))\<rparr>"
      "calls w' = calls w1 @ concat (map apply_trace (zip rest outs))"
      by blast
    show ?thesis
      by (rule exI[of _ "True # outs"]) (simp add: o l1)
  next
    case (Inl e)
    with c have l1: "calls w1 = calls w @ [CreateCall (create_payload item) False]"
      using create_variable_real_Inl by blast
    obtain r2 w2 where u: "update_variable api False item w1 = (r2, w2)" by force
    from Cons.prems c Inl u obtain ok where r2: "r2 = Inr ok"
      by (cases r2) auto
    with u have ok: "ok" and l2: "calls w2 = calls w1 @
       [DeleteCall (py_get (d_key item)) (py_get (d_environment_scope item)) True,
        CreateCall (create_payload item) True]"
      using update_variable_real_Inr by blast+
    from Cons.prems c Inl u r2 ok
    have "add_or_update_loop api False rest (rv\<lparr>rv_updated := rv_updated rv @ [item]\<rparr>) w2 = (Inr rv', w')"
      by simp
    from Cons.IH[OF this] obtain outs where
      o: "length outs = length rest"
      "rv' = rv\<lparr>rv_updated := rv_updated rv @ [item]\<rparr>
          \<lparr>rv_added := rv_added (rv\<lparr>rv_updated := rv_updated rv @ [item]\<rparr>) @ map fst (filter snd (zip rest outs)),
           rv_updated := rv_updated (rv\<lparr>rv_updated := rv_updated rv @ [item]\<rparr>) @ map fst (filter (\<lambda>ic. \<not> snd ic) (zip rest outs))\<rparr>"
      "calls w' = calls w2 @ concat (map apply_trace (zip rest outs))"
      by blast
    show ?thesis
      by (rule exI[of _ "False # outs"]) (simp add: o l1 l2)
  qed
qed

text \<open>
  When the apply phase fails, it fails in the fallback: the log ends with the failed
  create of some candidate, followed by a failed delete, or by a successful delete and a
  second failed create. The candidates before it were applied as above.
\<close>

lemma update_variable_real_Inl:
  "update_variable api False item w = (Inl e, w2) \<Longrightarrow>
   calls w2 = calls w @
     [DeleteCall (py_get (d_key item)) (py_get (d_environment_scope item)) False]
   \<or> calls w2 = calls w @
     [DeleteCall (py_get (d_key item)) (py_get (d_environment_scope item)) True,
      CreateCall (create_payload item) False]"
  by (auto simp: update_variable_def delete_variable_def create_variable_def Let_def log_call_def
           split: option.splits)

lemma add_or_update_loop_failure:
  "add_or_update_loop api False items rv w = (Inl e, w') \<Longrightarrow>
   \<exists>k outs. k < length items \<and> length outs = k
     \<and> (calls w' = calls w @ concat (map apply_trace (zip (take k items) outs))
            @ [CreateCall (create_payload (items ! k)) False,
               DeleteCall (py_get (d_key (items ! k))) (py_get (d_environment_scope (items ! k))) False]
        \<or> calls w' = calls w @ concat (map apply_trace (zip (take k items) outs))
            @ [CreateCall (create_payload (items ! k)) False,
               DeleteCall (py_get (d_key (items ! k))) (py_get (d_environment_scope (items ! k))) True,
               CreateCall (create_payload (items ! k)) False])"
proof (induction items arbitrary: rv w)
  case Nil
  then show ?case by simp
next
  case (Cons item rest)
  obtain r1 w1 where c: "create_variable api False item w = (r1, w1)" by force
  show ?case
  proof (cases r1)
    case (Inr ok)
    with c have l1: "calls w1 = calls w @ [CreateCall (create_payload item) True]"
      using create_variable_real_Inr by blast
    from Cons.prems c Inr obtain rv1 where
      "add_or_update_loop api False rest rv1 w1 = (Inl e, w')" by auto
    from Cons.IH[OF this] obtain k outs where
      k: "k < length rest" "length outs = k"
      "calls w' = calls w1 @ concat (map apply_trace (zip (take k rest) outs))
            @ [CreateCall (create_payload (rest ! k)) False,
               DeleteCall (py_get (d_key (rest ! k))) (py_get (d_environment_scope (rest ! k))) False]
        \<or> calls w' = calls w1 @ concat (map apply_trace (zip (take k rest) outs))
            @ [CreateCall (create_payload (rest ! k)) False,
               DeleteCall (py_get (d_key (rest ! k))) (py_get (d_environment_scope (rest ! k))) True,
               CreateCall (create_payload (rest ! k)) False]"
      by blast
    show ?thesis
      by (rule exI[of _ "Suc k"], rule exI[of _ "True # outs"]) (use k l1 in auto)
  next
    case (Inl e1)
    with c have l1: "calls w1 = calls w @ [CreateCall (create_payload item) False]"
      using create_variable_real_Inl by blast
    obtain r2 w2 where u: "update_variable api False item w1 = (r2, w2)" by force
    show ?thesis
    proof (cases r2)
      case (Inl e2)
      with Cons.prems c \<open>r1 = Inl e1\<close> u have "w' = w2" by simp
      with update_variable_real_Inl[OF u[unfolded Inl]] l1 show ?thesis
        by (intro exI[of _ 0] exI[of _ "[]"]) auto
    next
      case (Inr ok)
      with u have l2: "calls w2 = calls w1 @
         [DeleteCall (py_get (d_key item)) (py_get (d_environment_scope item)) True,
          CreateCall (create_payload item) True]"
        using update_variable_real_Inr by blast
      from Cons.prems c \<open>r1 = Inl e1\<close> u Inr obtain rv1 where
        "add_or_update_loop api False rest rv1 w2 = (Inl e, w')" by auto
      from Cons.IH[OF this] obtain k outs where
        k: "k < length rest" "length outs = k"
        "calls w' = calls w2 @ concat (map apply_trace (zip (take k rest) outs))
              @ [CreateCall (create_payload (rest ! k)) False,
                 DeleteCall (py_get (d_key (rest ! k))) (py_get (d_environment_scope (rest ! k))) False]
          \<or> calls w' = calls w2 @ concat (map apply_trace (zip (take k rest) outs))
              @ [CreateCall (create_payload (rest ! k)) False,
                 DeleteCall (py_get (d_key (rest ! k))) (py_get (d_environment_scope (rest ! k))) True,
                 CreateCall (create_payload (rest ! k)) False]"
        by blast
      show ?thesis
        by (rule exI[of _ "Suc k"], rule exI[of _ "False # outs"]) (use k l1 l2 in auto)
    qed
  qed
qed

lemma no_create_list_calls [simp]: "\<not> list_ex is_create (list_calls p n)"
  by (simp add: list_calls_def list_ex_iff)

lemma remove_loop_no_create:
  "remove_loop api cm items rv w = (r, w') \<Longrightarrow>
   \<exists>l. calls w' = calls w @ l \<and> \<not> list_ex is_create l"
proof (induction items arbitrary: rv w)
  case Nil
  then show ?case by simp
next
  case (Cons item rest)
  obtain r1 w1 where d: "delete_variable api cm item w = (r1, w1)" by force
  then have l1: "\<exists>l. calls w1 = calls w @ l \<and> \<not> list_ex is_create l"
    by (auto simp: delete_variable_def Let_def log_call_def split: if_splits option.splits)
  show ?case
  proof (cases r1)
    case (Inl e)
    with Cons.prems d l1 show ?thesis by auto
  next
    case (Inr ok)
    with Cons.prems d obtain rv1 where "remove_loop api cm rest rv1 w1 = (r, w')"
      by (auto split: if_splits)
    from Cons.IH[OF this] l1 show ?thesis by (auto simp: list_ex_iff)
  qed
qed


lemma remove_loop_keeps:
  "remove_loop api cm items rv w = (Inr rv', w') \<Longrightarrow>
   rv_added rv' = rv_added rv \<and> rv_updated rv' = rv_updated rv"
proof (induction items arbitrary: rv w)
  case Nil
  then show ?case by simp
next
  case (Cons item rest)
  obtain r1 w1 where d: "delete_variable api cm item w = (r1, w1)" by force
  show ?case
  proof (cases r1)
    case (Inl e)
    with Cons.prems d show ?thesis by simp
  next
    case (Inr ok)
    with Cons.prems d Cons.IH[of "if ok then rv\<lparr>rv_removed := rv_removed rv @ [item]\<rparr> else rv" w1]
    show ?thesis by (simp split: if_splits)
  qed
qed

lemma list_all_no_create:
  "list_all_instance_variables api w = (xs, w') \<Longrightarrow>
   \<exists>l. calls w' = calls w @ l \<and> \<not> list_ex is_create l"
  by (auto simp: list_all_instance_variables_sweep)

lemma state_present_trace:
  assumes "state_present api False purge requested existing rv0 w = (Inr rv, w')"
  shows "\<exists>outs post.
     length outs = length (filter (\<lambda>x. x \<notin> set existing) requested)
     \<and> rv_added rv = rv_added rv0 @
          map fst (filter snd (zip (filter (\<lambda>x. x \<notin> set existing) requested) outs))
     \<and> rv_updated rv = rv_updated rv0 @
          map fst (filter (\<lambda>ic. \<not> snd ic) (zip (filter (\<lambda>x. x \<notin> set existing) requested) outs))
     \<and> calls w' = calls w @
          concat (map apply_trace (zip (filter (\<lambda>x. x \<notin> set existing) requested) outs)) @ post
     \<and> \<not> list_ex is_create post"
proof -
  let ?cands = "filter (\<lambda>x. x \<notin> set existing) requested"
  obtain r1 w1 where a: "add_or_update_loop api False ?cands rv0 w = (r1, w1)" by force
  with assms obtain rv1 where r1: "r1 = Inr rv1"
    by (cases r1) (auto simp: state_present_def Let_def)
  from add_or_update_loop_trace[OF a[unfolded r1]] obtain outs where
    o: "length outs = length ?cands"
       "rv1 = rv0\<lparr>rv_added := rv_added rv0 @ map fst (filter snd (zip ?cands outs)),
               rv_updated := rv_updated rv0 @ map fst (filter (\<lambda>ic. \<not> snd ic) (zip ?cands outs))\<rparr>"
       "calls w1 = calls w @ concat (map apply_trace (zip ?cands outs))"
    by blast
  show ?thesis
  proof (cases purge)
    case False
    with assms a r1 have "rv = rv1" "w' = w1" by (auto simp: state_present_def Let_def)
    with o show ?thesis by (intro exI[of _ outs] exI[of _ "[]"]) simp
  next
    case True
    obtain gk w2 where l: "list_all_instance_variables api w1 = (gk, w2)" by force
    from assms a r1 True l have
      rm: "remove_loop api False
             (filter (\<lambda>x. x \<notin> set requested) (filter_returned_variables gk)) rv1 w2 = (Inr rv, w')"
      by (simp add: state_present_def Let_def)
    from list_all_no_create[OF l] obtain l1 where
      l1: "calls w2 = calls w1 @ l1" "\<not> list_ex is_create l1" by blast
    from remove_loop_no_create[OF rm] obtain l2 where
      l2: "calls w' = calls w2 @ l2" "\<not> list_ex is_create l2" by blast
    from remove_loop_keeps[OF rm] have k: "rv_added rv = rv_added rv1" "rv_updated rv = rv_updated rv1"
      by simp_all
    show ?thesis
      by (intro exI[of _ outs] exI[of _ "l1 @ l2"]) (use o l1 l2 k in \<open>auto simp: list_ex_iff\<close>)
  qed
qed

lemma native_python_main_present_real:
  assumes "native_python_main api purge req0 ''present'' False w = (Inr (change, rv, before, after), w')"
  shows "\<exists>requested w3.
      normalize_loop req0 = Inr requested
    \<and> state_present api False purge requested
         (filter_returned_variables (concat (nonempty_prefix (api_pages api (remote w)))))
         empty_return_value
         (w\<lparr>calls := calls w @ list_calls 1 (Suc (length (nonempty_prefix (api_pages api (remote w)))))
                     @ list_calls 1 (Suc (length (nonempty_prefix (api_pages api (remote w)))))\<rparr>)
       = (Inr rv, w3)
    \<and> list_all_instance_variables api w3 = (after, w')
    \<and> before = concat (nonempty_prefix (api_pages api (remote w)))"
  using assms
  by (auto simp: native_python_main_def list_all_instance_variables_sweep Let_def
           split: sum.splits prod.splits)

text \<open>
  C1. A real run with state \<^verbatim>\<open>'present'\<close> that returns. The candidates are the
  requested variables, defaults filled in, that are not equal in all attributes to an
  entry of the filtered remote listing. Candidate by candidate, in order, the log shows
  either one successful create, and the candidate is in \<^verbatim>\<open>added\<close>, or a failed
  create followed by a successful delete and a successful create, and the candidate is
  in \<^verbatim>\<open>updated\<close> (\<open>outs\<close> tells which). Nothing is created before or after.
\<close>

theorem present_applies_create_then_update:
  assumes "native_python_main api purge requested_variables ''present'' False w =
             (Inr (change, rv, before, after), w')"
  shows "\<exists>requested outs post.
      normalize_loop requested_variables = Inr requested
    \<and> length outs = length (filter (\<lambda>x. x \<notin> set (filter_returned_variables before)) requested)
    \<and> before = concat (nonempty_prefix (api_pages api (remote w)))
    \<and> rv_added rv =
         map fst (filter snd
           (zip (filter (\<lambda>x. x \<notin> set (filter_returned_variables before)) requested) outs))
    \<and> rv_updated rv =
         map fst (filter (\<lambda>ic. \<not> snd ic)
           (zip (filter (\<lambda>x. x \<notin> set (filter_returned_variables before)) requested) outs))
    \<and> calls w' = calls w
         @ list_calls 1 (Suc (length (nonempty_prefix (api_pages api (remote w)))))
         @ list_calls 1 (Suc (length (nonempty_prefix (api_pages api (remote w)))))
         @ concat (map apply_trace
             (zip (filter (\<lambda>x. x \<notin> set (filter_returned_variables before)) requested) outs))
         @ post
    \<and> \<not> list_ex is_create post"
proof -
  from native_python_main_present_real[OF assms] obtain requested w3 where
    n: "normalize_loop requested_variables = Inr requested"
    and sp: "state_present api False purge requested
         (filter_returned_variables (concat (nonempty_prefix (api_pages api (remote w)))))
         empty_return_value
         (w\<lparr>calls := calls w @ list_calls 1 (Suc (length (nonempty_prefix (api_pages api (remote w)))))
                     @ list_calls 1 (Suc (length (nonempty_prefix (api_pages api (remote w)))))\<rparr>)
       = (Inr rv, w3)"
    and la: "list_all_instance_variables api w3 = (after, w')"
    and b: "before = concat (nonempty_prefix (api_pages api (remote w)))"
    by blast
  from state_present_trace[OF sp] obtain outs post where
    o: "length outs = length (filter (\<lambda>x. x \<notin> set (filter_returned_variables before)) requested)"
       "rv_added rv = map fst (filter snd
           (zip (filter (\<lambda>x. x \<notin> set (filter_returned_variables before)) requested) outs))"
       "rv_updated rv = map fst (filter (\<lambda>ic. \<not> snd ic)
           (zip (filter (\<lambda>x. x \<notin> set (filter_returned_variables before)) requested) outs))"
       "calls w3 = calls w
         @ list_calls 1 (Suc (length (nonempty_prefix (api_pages api (remote w)))))
         @ list_calls 1 (Suc (length (nonempty_prefix (api_pages api (remote w)))))
         @ concat (map apply_trace
             (zip (filter (\<lambda>x. x \<notin> set (filter_returned_variables before)) requested) outs))
         @ post"
       "\<not> list_ex is_create post"
    unfolding b by (auto simp: empty_return_value_def)
  from list_all_no_create[OF la] obtain l where
    l: "calls w' = calls w3 @ l" "\<not> list_ex is_create l" by blast
  show ?thesis
    by (intro exI[of _ requested] exI[of _ outs] exI[of _ "post @ l"])
       (use n o l b in \<open>auto simp: list_ex_iff\<close>)
qed

theorem present_applies_create_then_update_witness:
  "fst (native_python_main (server_api 20) False example_requests ''present'' False example_remote) =
     Inr (True,
          \<lparr>rv_added = [stored ''BAR'' ''x'' False], rv_updated = [stored ''FOO'' ''2'' False],
           rv_removed = [], rv_untouched = []\<rparr>,
          [stored ''FOO'' ''1'' False],
          [stored ''FOO'' ''2'' False, stored ''BAR'' ''x'' False])
   \<and> (\<exists>outs post.
        length outs = 2
      \<and> calls (snd (native_python_main (server_api 20) False example_requests ''present'' False
                      example_remote)) =
          [ListCall 1, ListCall 2, ListCall 1, ListCall 2]
          @ concat (map apply_trace
              (zip [stored ''FOO'' ''2'' False, stored ''BAR'' ''x'' False] outs))
          @ post
      \<and> \<not> list_ex is_create post)"
proof -
  let ?run = "native_python_main (server_api 20) False example_requests ''present'' False example_remote"
  let ?rv = "\<lparr>rv_added = [stored ''BAR'' ''x'' False], rv_updated = [stored ''FOO'' ''2'' False],
           rv_removed = [], rv_untouched = []\<rparr>"
  have f: "fst ?run = Inr (True, ?rv, [stored ''FOO'' ''1'' False],
          [stored ''FOO'' ''2'' False, stored ''BAR'' ''x'' False])"
    by code_simp
  then have h: "?run = (Inr (True, ?rv, [stored ''FOO'' ''1'' False],
          [stored ''FOO'' ''2'' False, stored ''BAR'' ''x'' False]), snd ?run)"
    by (metis prod.collapse)
  have n: "normalize_loop example_requests = Inr [stored ''FOO'' ''2'' False, stored ''BAR'' ''x'' False]"
    by code_simp
  have c: "filter (\<lambda>x. x \<notin> set (filter_returned_variables [stored ''FOO'' ''1'' False]))
             [stored ''FOO'' ''2'' False, stored ''BAR'' ''x'' False] =
           [stored ''FOO'' ''2'' False, stored ''BAR'' ''x'' False]"
    by code_simp
  have p: "list_calls 1 (Suc (length (nonempty_prefix (api_pages (server_api 20) (remote example_remote))))) =
           [ListCall 1, ListCall 2]"
    by code_simp
  from present_applies_create_then_update[OF h] obtain requested outs post where
    "normalize_loop example_requests = Inr requested"
    "length outs = length (filter (\<lambda>x. x \<notin> set (filter_returned_variables [stored ''FOO'' ''1'' False])) requested)"
    "calls (snd ?run) = calls example_remote
         @ list_calls 1 (Suc (length (nonempty_prefix (api_pages (server_api 20) (remote example_remote)))))
         @ list_calls 1 (Suc (length (nonempty_prefix (api_pages (server_api 20) (remote example_remote)))))
         @ concat (map apply_trace
             (zip (filter (\<lambda>x. x \<notin> set (filter_returned_variables [stored ''FOO'' ''1'' False])) requested) outs))
         @ post"
    "\<not> list_ex is_create post"
    by blast
  with n c p have "length outs = 2 \<and> calls (snd ?run) =
          [ListCall 1, ListCall 2, ListCall 1, ListCall 2]
          @ concat (map apply_trace
              (zip [stored ''FOO'' ''2'' False, stored ''BAR'' ''x'' False] outs))
          @ post \<and> \<not> list_ex is_create post"
    by (simp add: example_remote_def)
  with f show ?thesis by blast
qed

section \<open>The module on the reference server\<close>

lemma paginate_concat: "0 < n \<Longrightarrow> concat (paginate n xs) = xs"
proof (induction n xs rule: paginate.induct)
  case (1 per_page xs)
  then show ?case by (subst paginate.simps) auto
qed

lemma paginate_nonempty: "p \<in> set (paginate n xs) \<Longrightarrow> p \<noteq> []"
proof (induction n xs rule: paginate.induct)
  case (1 per_page xs)
  from "1.prems" show ?case
    by (subst (asm) paginate.simps) (use "1.IH" in \<open>auto split: if_splits\<close>)
qed

lemma nonempty_prefix_paginate: "nonempty_prefix (paginate n xs) = paginate n xs"
  unfolding nonempty_prefix_def by (rule takeWhile_eq_all_conv[THEN iffD2]) (auto dest: paginate_nonempty)

lemma server_list_all:
  assumes "0 < n"
  shows "list_all_instance_variables (server_api n) w =
     (remote w, w\<lparr>calls := calls w @ list_calls 1 (Suc (length (paginate n (remote w))))\<rparr>)"
  using assms
  by (simp add: list_all_instance_variables_sweep server_api_def nonempty_prefix_paginate paginate_concat)

lemma var_id_create_payload [simp]: "var_id (create_payload x) = var_id x"
  by (auto simp: var_id_def create_payload_def py_get_def split: option.splits)

lemma var_id_filter_attributes [simp]: "var_id (filter_attributes x) = var_id x"
  by (simp add: var_id_def filter_attributes_def)

lemma server_create_variable:
  "create_variable (server_api n) False item w =
     (if var_id item \<in> var_id ` set (remote w)
      then (Inl GitlabError, log_call (CreateCall (create_payload item) False) w)
      else (Inr True, log_call (CreateCall (create_payload item) True)
                        (w\<lparr>remote := remote w @ [create_payload item]\<rparr>)))"
  by (simp add: create_variable_def server_api_def server_create_def Let_def)

lemma server_delete_variable:
  "delete_variable (server_api n) False item w =
     (if var_id item \<in> var_id ` set (remote w)
      then (Inr True, log_call (DeleteCall (fst (var_id item)) (snd (var_id item)) True)
                        (w\<lparr>remote := filter (\<lambda>x. var_id x \<noteq> var_id item) (remote w)\<rparr>))
      else (Inl GitlabError, log_call (DeleteCall (fst (var_id item)) (snd (var_id item)) False) w))"
  by (simp add: delete_variable_def server_api_def server_delete_def Let_def var_id_def)

lemma add_or_update_loop_server_Cons:
  "\<exists>rv1 w1.
     add_or_update_loop (server_api n) False (item # rest) rv w =
       add_or_update_loop (server_api n) False rest rv1 w1
   \<and> remote w1 = filter (\<lambda>x. var_id x \<noteq> var_id item) (remote w) @ [create_payload item]"
proof (cases "var_id item \<in> var_id ` set (remote w)")
  case False
  then have "filter (\<lambda>x. var_id x \<noteq> var_id item) (remote w) = remote w"
    by (intro filter_True ballI) (metis imageI)
  with False show ?thesis
    by (intro exI[of _ "rv\<lparr>rv_added := rv_added rv @ [item]\<rparr>"]
              exI[of _ "log_call (CreateCall (create_payload item) True)
                          (w\<lparr>remote := remote w @ [create_payload item]\<rparr>)"])
       (simp add: server_create_variable log_call_def)
next
  case True
  let ?w1 = "log_call (CreateCall (create_payload item) False) w"
  let ?w2 = "log_call (DeleteCall (fst (var_id item)) (snd (var_id item)) True)
               (?w1\<lparr>remote := filter (\<lambda>x. var_id x \<noteq> var_id item) (remote w)\<rparr>)"
  let ?w3 = "log_call (CreateCall (create_payload item) True)
               (?w2\<lparr>remote := filter (\<lambda>x. var_id x \<noteq> var_id item) (remote w) @ [create_payload item]\<rparr>)"
  have c: "create_variable (server_api n) False item w = (Inl GitlabError, ?w1)"
    using True by (simp add: server_create_variable)
  have d: "delete_variable (server_api n) False item ?w1 = (Inr True, ?w2)"
    using True by (simp add: server_delete_variable log_call_def)
  have "var_id item \<notin> var_id ` set (filter (\<lambda>x. var_id x \<noteq> var_id item) (remote w))"
    by auto
  then have c2: "create_variable (server_api n) False item ?w2 = (Inr True, ?w3)"
    by (simp add: server_create_variable log_call_def)
  have u: "update_variable (server_api n) False item ?w1 = (Inr True, ?w3)"
    using d c2 by (simp add: update_variable_def)
  show ?thesis
    by (intro exI[of _ "rv\<lparr>rv_updated := rv_updated rv @ [item]\<rparr>"] exI[of _ ?w3])
       (simp add: c u, simp add: log_call_def)
qed

lemma add_or_update_loop_server:
  "add_or_update_loop (server_api n) False items rv w = (r, w') \<Longrightarrow>
   (\<exists>rv'. r = Inr rv') \<and> remote w' = server_apply (remote w) items"
proof (induction items arbitrary: rv w)
  case Nil
  then show ?case by auto
next
  case (Cons item rest)
  from add_or_update_loop_server_Cons[of n item rest rv w] obtain rv1 w1 where
    "add_or_update_loop (server_api n) False (item # rest) rv w =
       add_or_update_loop (server_api n) False rest rv1 w1"
    "remote w1 = filter (\<lambda>x. var_id x \<noteq> var_id item) (remote w) @ [create_payload item]"
    by blast
  with Cons.IH[of rv1 w1] Cons.prems show ?case by simp
qed

lemma remove_loop_server:
  assumes "distinct (map var_id items)"
    and "var_id ` set items \<subseteq> var_id ` set (remote w)"
  shows "\<exists>w'. remove_loop (server_api n) False items rv w = (Inr (rv\<lparr>rv_removed := rv_removed rv @ items\<rparr>), w')
     \<and> remote w' = filter (\<lambda>x. var_id x \<notin> var_id ` set items) (remote w)
     \<and> calls w' = calls w @ map (\<lambda>x. DeleteCall (fst (var_id x)) (snd (var_id x)) True) items"
  using assms
proof (induction items arbitrary: rv w)
  case Nil
  then show ?case by simp
next
  case (Cons item rest)
  let ?w1 = "log_call (DeleteCall (fst (var_id item)) (snd (var_id item)) True)
              (w\<lparr>remote := filter (\<lambda>x. var_id x \<noteq> var_id item) (remote w)\<rparr>)"
  have d: "delete_variable (server_api n) False item w = (Inr True, ?w1)"
    using Cons.prems by (simp add: server_delete_variable)
  have sub: "var_id ` set rest \<subseteq> var_id ` set (remote ?w1)"
  proof
    fix i assume i: "i \<in> var_id ` set rest"
    with Cons.prems(2) obtain y where y: "y \<in> set (remote w)" "var_id y = i" by auto
    from i Cons.prems(1) have "i \<noteq> var_id item" by (metis distinct.simps(2) list.simps(9) set_map)
    with y show "i \<in> var_id ` set (remote ?w1)" by (force simp: log_call_def)
  qed
  have dist: "distinct (map var_id rest)" using Cons.prems by simp
  from Cons.IH[OF dist sub, of "rv\<lparr>rv_removed := rv_removed rv @ [item]\<rparr>"]
  obtain w' where
    "remove_loop (server_api n) False rest (rv\<lparr>rv_removed := rv_removed rv @ [item]\<rparr>) ?w1 =
       (Inr (rv\<lparr>rv_removed := rv_removed rv @ [item]\<rparr>\<lparr>rv_removed := rv_removed (rv\<lparr>rv_removed := rv_removed rv @ [item]\<rparr>) @ rest\<rparr>), w')"
    "remote w' = filter (\<lambda>x. var_id x \<notin> var_id ` set rest) (remote ?w1)"
    "calls w' = calls ?w1 @ map (\<lambda>x. DeleteCall (fst (var_id x)) (snd (var_id x)) True) rest"
    by blast
  then show ?case using d
    by (intro exI[of _ w']) (auto simp: log_call_def intro: filter_cong)
qed


lemma distinct_server_apply:
  "distinct (map var_id s) \<Longrightarrow> distinct (map var_id (server_apply s items))"
proof (induction items arbitrary: s)
  case Nil
  then show ?case by simp
next
  case (Cons c cs)
  have "distinct (map var_id (filter (\<lambda>x. var_id x \<noteq> var_id c) s @ [create_payload c]))"
    using Cons.prems by (auto simp: distinct_map_filter)
  then show ?case using Cons.IH by simp
qed

lemma server_apply_origin:
  "x \<in> set (server_apply s items) \<Longrightarrow>
   (x \<in> set s \<and> var_id x \<notin> var_id ` set items) \<or> (\<exists>c\<in>set items. x = create_payload c)"
proof (induction items arbitrary: s)
  case Nil
  then show ?case by simp
next
  case (Cons c cs)
  from Cons.IH[of "filter (\<lambda>x. var_id x \<noteq> var_id c) s @ [create_payload c]"] Cons.prems
  show ?case by auto
qed

lemma server_apply_keeps:
  "x \<in> set s \<Longrightarrow> var_id x \<notin> var_id ` set items \<Longrightarrow> x \<in> set (server_apply s items)"
proof (induction items arbitrary: s)
  case Nil
  then show ?case by simp
next
  case (Cons c cs)
  from Cons.prems have "x \<in> set (filter (\<lambda>x. var_id x \<noteq> var_id c) s @ [create_payload c])"
    by auto
  moreover from Cons.prems have "var_id x \<notin> var_id ` set cs" by auto
  ultimately show ?case using Cons.IH by simp
qed

lemma server_apply_last:
  "c \<in> set items \<Longrightarrow>
   \<exists>c'\<in>set items. var_id c' = var_id c \<and> create_payload c' \<in> set (server_apply s items)"
proof (induction items arbitrary: s c)
  case Nil
  then show ?case by simp
next
  case (Cons a cs)
  let ?s1 = "filter (\<lambda>x. var_id x \<noteq> var_id a) s @ [create_payload a]"
  show ?case
  proof (cases "var_id c \<in> var_id ` set cs")
    case True
    then obtain c2 where "c2 \<in> set cs" "var_id c2 = var_id c" by auto
    with Cons.IH[of c2 ?s1] show ?thesis by auto
  next
    case False
    with Cons.prems have ca: "c = a" by auto
    have "create_payload a \<in> set ?s1" by simp
    with False ca have "create_payload a \<in> set (server_apply ?s1 cs)"
      by (intro server_apply_keeps) simp_all
    with ca show ?thesis by auto
  qed
qed

lemma server_apply_ids:
  "var_id ` set (server_apply s items) = var_id ` set s \<union> var_id ` set items"
proof (induction items arbitrary: s)
  case Nil
  then show ?case by simp
next
  case (Cons c cs)
  have "var_id ` set (filter (\<lambda>x. var_id x \<noteq> var_id c) s @ [create_payload c]) =
        insert (var_id c) (var_id ` set s)"
    by auto
  with Cons.IH[of "filter (\<lambda>x. var_id x \<noteq> var_id c) s @ [create_payload c]"]
  show ?case by auto
qed

lemma normalize_item_fields:
  assumes "normalize_item item = Inr c"
  shows "d_name c = None" "d_extra c = d_extra item"
    "\<exists>v. d_key c = Some v" "\<exists>v. d_value c = Some v"
    "\<exists>v. d_masked c = Some v \<and> v \<noteq> PNone"
    "\<exists>v. d_protected c = Some v \<and> v \<noteq> PNone"
    "\<exists>v. d_variable_type c = Some v \<and> v \<noteq> PNone"
    "\<exists>v. d_environment_scope c = Some v \<and> v \<noteq> PNone"
proof -
  from assms obtain nm where nm: "d_name item = Some nm"
    by (auto simp: normalize_item_def split: option.splits)
  show "d_name c = None" "d_extra c = d_extra item" "\<exists>v. d_key c = Some v" "\<exists>v. d_value c = Some v"
    using assms nm by (auto simp: normalize_item_def)
  show "\<exists>v. d_masked c = Some v \<and> v \<noteq> PNone"
    using assms nm by (cases "d_masked item") (auto simp: normalize_item_def py_get_def)
  show "\<exists>v. d_protected c = Some v \<and> v \<noteq> PNone"
    using assms nm by (cases "d_protected item") (auto simp: normalize_item_def py_get_def)
  show "\<exists>v. d_variable_type c = Some v \<and> v \<noteq> PNone"
    using assms nm by (cases "d_variable_type item") (auto simp: normalize_item_def py_get_def)
  show "\<exists>v. d_environment_scope c = Some v \<and> v \<noteq> PNone"
    using assms nm by (cases "d_environment_scope item") (auto simp: normalize_item_def py_get_def)
qed

lemma normalize_item_plain:
  assumes "normalize_item item = Inr c" and "d_extra item = Mapping.empty"
  shows "create_payload c = c \<and> filter_attributes c = c"
proof
  note f = normalize_item_fields[OF assms(1)]
  show "create_payload c = c"
    by (rule vdict.equality) (use f assms(2) in \<open>auto simp: create_payload_def py_get_def\<close>)
  show "filter_attributes c = c"
    by (rule vdict.equality) (use f assms(2) in \<open>auto simp: filter_attributes_def\<close>)
qed

lemma normalize_loop_plain:
  "normalize_loop xs = Inr ys \<Longrightarrow> list_all (\<lambda>x. d_extra x = Mapping.empty) xs \<Longrightarrow>
   c \<in> set ys \<Longrightarrow> create_payload c = c \<and> filter_attributes c = c"
proof (induction xs arbitrary: ys)
  case Nil
  then show ?case by simp
next
  case (Cons x xs)
  from Cons.prems(1) obtain y ys' where
    y: "normalize_item x = Inr y" "normalize_loop xs = Inr ys'" "ys = y # ys'"
    by (auto split: sum.splits)
  with Cons show ?case using normalize_item_plain[of x y] by auto
qed

section \<open>Purge with state present (C3)\<close>

lemma set_filter_returned_variables:
  "set (filter_returned_variables xs) = filter_attributes ` set xs"
  by (simp add: filter_returned_variables_def)

lemma applied_match:
  assumes d: "distinct (map var_id s0)"
    and pl: "\<And>c. c \<in> set requested \<Longrightarrow> create_payload c = c \<and> filter_attributes c = c"
    and x: "x \<in> set (server_apply s0 (filter (\<lambda>r. r \<notin> set (filter_returned_variables s0)) requested))"
    and i: "var_id x \<in> var_id ` set requested"
  shows "filter_attributes x \<in> set requested"
proof -
  let ?cands = "filter (\<lambda>r. r \<notin> set (filter_returned_variables s0)) requested"
  from server_apply_origin[OF x]
  consider "x \<in> set s0" "var_id x \<notin> var_id ` set ?cands" | c where "c \<in> set ?cands" "x = create_payload c"
    by blast
  then show ?thesis
  proof cases
    case 1
    from i obtain r where r: "r \<in> set requested" "var_id r = var_id x" by auto
    with 1(2) have "r \<notin> set ?cands" by (metis imageI)
    with r have "r \<in> set (filter_returned_variables s0)" by simp
    then obtain y where y: "y \<in> set s0" "r = filter_attributes y"
      by (auto simp: filter_returned_variables_def)
    with r have "var_id y = var_id x" by simp
    with d y 1(1) have "y = x" by (meson distinct_map inj_onD)
    with y r show ?thesis by simp
  next
    case 2
    then have "c \<in> set requested" by simp
    with pl[of c] 2 show ?thesis by simp
  qed
qed

lemma applied_covers:
  "var_id ` set requested \<subseteq>
   var_id ` set (server_apply s0 (filter (\<lambda>r. r \<notin> set (filter_returned_variables s0)) requested))"
proof
  fix i assume "i \<in> var_id ` set requested"
  then obtain r where r: "r \<in> set requested" "var_id r = i" by auto
  show "i \<in> var_id ` set (server_apply s0 (filter (\<lambda>r. r \<notin> set (filter_returned_variables s0)) requested))"
  proof (cases "r \<in> set (filter_returned_variables s0)")
    case True
    then obtain y where "y \<in> set s0" "r = filter_attributes y"
      by (auto simp: filter_returned_variables_def)
    with r have "i \<in> var_id ` set s0" by force
    then show ?thesis by (simp add: server_apply_ids)
  next
    case False
    with r have "i \<in> var_id ` set (filter (\<lambda>r. r \<notin> set (filter_returned_variables s0)) requested)"
      by force
    then show ?thesis by (simp add: server_apply_ids)
  qed
qed

lemma state_present_purge_server:
  assumes n: "0 < n"
    and d: "distinct (map var_id (remote w))"
    and pl: "\<And>c. c \<in> set requested \<Longrightarrow> create_payload c = c \<and> filter_attributes c = c"
  shows "\<exists>rv w' pre k.
      state_present (server_api n) False True requested (filter_returned_variables (remote w)) rv0 w
        = (Inr rv, w')
    \<and> rv_removed rv = rv_removed rv0 @
         filter (\<lambda>x. var_id x \<notin> var_id ` set requested)
           (filter_returned_variables
              (server_apply (remote w)
                 (filter (\<lambda>r. r \<notin> set (filter_returned_variables (remote w))) requested)))
    \<and> remote w' =
         filter (\<lambda>x. var_id x \<in> var_id ` set requested)
           (server_apply (remote w)
              (filter (\<lambda>r. r \<notin> set (filter_returned_variables (remote w))) requested))
    \<and> calls w' = calls w @ pre @ list_calls 1 (Suc k)
         @ map (\<lambda>x. DeleteCall (fst (var_id x)) (snd (var_id x)) True)
             (filter (\<lambda>x. var_id x \<notin> var_id ` set requested)
               (filter_returned_variables
                 (server_apply (remote w)
                   (filter (\<lambda>r. r \<notin> set (filter_returned_variables (remote w))) requested))))"
proof -
  let ?cands = "filter (\<lambda>r. r \<notin> set (filter_returned_variables (remote w))) requested"
  let ?s1 = "server_apply (remote w) ?cands"
  let ?ids = "var_id ` set requested"
  let ?remove = "filter (\<lambda>x. x \<notin> set requested) (filter_returned_variables ?s1)"
  obtain r1 w1 where a: "add_or_update_loop (server_api n) False ?cands rv0 w = (r1, w1)" by force
  from add_or_update_loop_server[OF a] obtain rv1 where
    r1: "r1 = Inr rv1" and w1: "remote w1 = ?s1" by blast
  from extends_add_or_update_loop[OF a] obtain pre where pre: "calls w1 = calls w @ pre"
    by (auto simp: extends_log_def)
  have rv1: "rv_removed rv1 = rv_removed rv0"
    using add_or_update_loop_trace[OF a[unfolded r1]] by auto
  let ?w2 = "w1\<lparr>calls := calls w1 @ list_calls 1 (Suc (length (paginate n (remote w1))))\<rparr>"
  have l: "list_all_instance_variables (server_api n) w1 = (?s1, ?w2)"
    using server_list_all[OF n, of w1] w1 by simp
  have d1: "distinct (map var_id ?s1)" using d by (rule distinct_server_apply)
  have rem_eq: "?remove = filter (\<lambda>x. var_id x \<notin> ?ids) (filter_returned_variables ?s1)"
  proof (rule filter_cong[OF refl])
    fix x assume "x \<in> set (filter_returned_variables ?s1)"
    then obtain y where y: "y \<in> set ?s1" "x = filter_attributes y"
      unfolding set_filter_returned_variables by blast
    have "x \<in> set requested \<Longrightarrow> var_id x \<in> ?ids" by (rule imageI)
    moreover have "var_id x \<in> ?ids \<Longrightarrow> x \<in> set requested"
      using applied_match[OF d pl, where x = y] y by simp
    ultimately show "(x \<notin> set requested) = (var_id x \<notin> ?ids)" by blast
  qed
  have dr: "distinct (map var_id ?remove)"
    using d1 by (simp add: filter_returned_variables_def distinct_map_filter comp_def)
  have sr: "var_id ` set ?remove \<subseteq> var_id ` set (remote ?w2)"
    using w1 by (auto simp: filter_returned_variables_def)
  from remove_loop_server[OF dr sr, of n rv1] obtain w' where
    rl: "remove_loop (server_api n) False ?remove rv1 ?w2 =
           (Inr (rv1\<lparr>rv_removed := rv_removed rv1 @ ?remove\<rparr>), w')"
    and rw: "remote w' = filter (\<lambda>x. var_id x \<notin> var_id ` set ?remove) (remote ?w2)"
    and cw: "calls w' = calls ?w2 @ map (\<lambda>x. DeleteCall (fst (var_id x)) (snd (var_id x)) True) ?remove"
    by blast
  have sp: "state_present (server_api n) False True requested (filter_returned_variables (remote w)) rv0 w
        = (Inr (rv1\<lparr>rv_removed := rv_removed rv1 @ ?remove\<rparr>), w')"
    using a r1 l rl by (simp add: state_present_def Let_def)
  have ids_remove: "var_id ` set ?remove = {i \<in> var_id ` set ?s1. i \<notin> ?ids}"
  proof (intro set_eqI iffI)
    fix i assume "i \<in> var_id ` set ?remove"
    then obtain y where "y \<in> set ?s1" "var_id (filter_attributes y) \<notin> ?ids"
      "i = var_id (filter_attributes y)"
      unfolding rem_eq by (auto simp: set_filter_returned_variables)
    then show "i \<in> {i \<in> var_id ` set ?s1. i \<notin> ?ids}" by simp
  next
    fix i assume "i \<in> {i \<in> var_id ` set ?s1. i \<notin> ?ids}"
    then obtain y where y: "y \<in> set ?s1" "i = var_id y" "i \<notin> ?ids" by auto
    then have "filter_attributes y \<in> set ?remove"
      unfolding rem_eq by (simp add: set_filter_returned_variables)
    then show "i \<in> var_id ` set ?remove"
      using y(2) by (metis imageI var_id_filter_attributes)
  qed
  have fin: "remote w' = filter (\<lambda>x. var_id x \<in> ?ids) ?s1"
    unfolding rw ids_remove using w1
    by (auto intro!: filter_cong)
  show ?thesis
    apply (intro exI[of _ "rv1\<lparr>rv_removed := rv_removed rv1 @ ?remove\<rparr>"] exI[of _ w'] exI[of _ pre]
             exI[of _ "length (paginate n (remote w1))"])
    using sp fin cw pre rv1 rem_eq by simp
qed

text \<open>
  C3. On the reference server (pages of \<open>per_page > 0\<close> entries, pairwise different
  (key, environment_scope) pairs in the remote set), with requested dicts that carry
  only the declared options: a real run with state \<^verbatim>\<open>'present'\<close> and purge returns.
  Afterwards the pairs of the remote set are exactly the pairs of the requested
  variables. Every removed variable has a pair that is not requested, every variable of
  the initial remote set whose pair is not requested is among the removed ones, and the
  log ends with a listing (the re-fetch), one successful delete per removed variable,
  and the final listing.
\<close>

theorem purge_present_reconciles:
  assumes n: "0 < per_page"
    and d: "distinct (map var_id (remote w))"
    and pl: "list_all (\<lambda>x. d_extra x = Mapping.empty) requested_variables"
    and nm: "normalize_loop requested_variables = Inr requested"
  shows "\<exists>change rv w' pre k k'.
      native_python_main (server_api per_page) True requested_variables ''present'' False w =
        (Inr (change, rv, remote w, remote w'), w')
    \<and> set (map var_id (remote w')) = set (map var_id requested)
    \<and> list_all (\<lambda>x. var_id x \<notin> set (map var_id requested)) (rv_removed rv)
    \<and> list_all (\<lambda>x. var_id x \<in> set (map var_id requested)
                      \<or> filter_attributes x \<in> set (rv_removed rv)) (remote w)
    \<and> calls w' = pre @ list_calls 1 (Suc k)
         @ map (\<lambda>x. DeleteCall (fst (var_id x)) (snd (var_id x)) True) (rv_removed rv)
         @ list_calls 1 (Suc k')"
proof -
  let ?sweep = "list_calls 1 (Suc (length (paginate per_page (remote w))))"
  let ?w1 = "w\<lparr>calls := calls w @ ?sweep\<rparr>"
  let ?w2 = "?w1\<lparr>calls := calls ?w1 @ ?sweep\<rparr>"
  let ?cands = "filter (\<lambda>r. r \<notin> set (filter_returned_variables (remote w))) requested"
  let ?s1 = "server_apply (remote w) ?cands"
  let ?ids = "var_id ` set requested"
  have l1: "list_all_instance_variables (server_api per_page) w = (remote w, ?w1)"
    by (rule server_list_all[OF n])
  have l2: "list_all_instance_variables (server_api per_page) ?w1 = (remote w, ?w2)"
    using server_list_all[OF n, of ?w1] by simp
  have plain: "\<And>c. c \<in> set requested \<Longrightarrow> create_payload c = c \<and> filter_attributes c = c"
    using normalize_loop_plain[OF nm pl] .
  have d2: "distinct (map var_id (remote ?w2))" using d by simp
  from state_present_purge_server[OF n d2 plain, of requested empty_return_value]
  obtain rv w3 pre k where
    sp: "state_present (server_api per_page) False True requested
           (filter_returned_variables (remote w)) empty_return_value ?w2 = (Inr rv, w3)"
    and rr: "rv_removed rv =
         filter (\<lambda>x. var_id x \<notin> ?ids) (filter_returned_variables ?s1)"
    and rw: "remote w3 = filter (\<lambda>x. var_id x \<in> ?ids) ?s1"
    and cw: "calls w3 = calls ?w2 @ pre @ list_calls 1 (Suc k)
         @ map (\<lambda>x. DeleteCall (fst (var_id x)) (snd (var_id x)) True)
             (filter (\<lambda>x. var_id x \<notin> ?ids) (filter_returned_variables ?s1))"
    by (auto simp: empty_return_value_def)
  let ?w4 = "w3\<lparr>calls := calls w3 @ list_calls 1 (Suc (length (paginate per_page (remote w3))))\<rparr>"
  have l3: "list_all_instance_variables (server_api per_page) w3 = (remote w3, ?w4)"
    by (rule server_list_all[OF n])
  have run: "native_python_main (server_api per_page) True requested_variables ''present'' False w =
        (Inr (rv_added rv @ rv_removed rv @ rv_updated rv \<noteq> [], rv, remote w, remote ?w4), ?w4)"
    using l1 l2 nm sp l3 by (simp add: native_python_main_def Let_def)
  have a: "set (map var_id (remote ?w4)) = set (map var_id requested)"
  proof (intro set_eqI iffI)
    fix i assume "i \<in> set (map var_id (remote ?w4))"
    then show "i \<in> set (map var_id requested)" by (auto simp: rw)
  next
    fix i assume i: "i \<in> set (map var_id requested)"
    with applied_covers[of requested "remote w"] obtain y where
      "y \<in> set ?s1" "var_id y = i" by auto
    with i have "y \<in> set (remote ?w4)" by (simp add: rw)
    with \<open>var_id y = i\<close> show "i \<in> set (map var_id (remote ?w4))" by force
  qed
  have b: "list_all (\<lambda>x. var_id x \<notin> set (map var_id requested)) (rv_removed rv)"
    by (simp add: rr list_all_iff)
  have c: "list_all (\<lambda>x. var_id x \<in> set (map var_id requested)
                      \<or> filter_attributes x \<in> set (rv_removed rv)) (remote w)"
    unfolding list_all_iff
  proof (intro ballI)
    fix x assume x: "x \<in> set (remote w)"
    show "var_id x \<in> set (map var_id requested) \<or> filter_attributes x \<in> set (rv_removed rv)"
    proof (cases "var_id x \<in> ?ids")
      case True
      then show ?thesis by simp
    next
      case False
      then have "var_id x \<notin> var_id ` set ?cands" by auto
      with x have "x \<in> set ?s1" by (rule server_apply_keeps)
      with False show ?thesis by (simp add: rr set_filter_returned_variables)
    qed
  qed
  show ?thesis
    apply (rule exI[of _ "rv_added rv @ rv_removed rv @ rv_updated rv \<noteq> []"], rule exI[of _ rv],
           rule exI[of _ ?w4], rule exI[of _ "calls ?w2 @ pre"], rule exI[of _ k],
           rule exI[of _ "length (paginate per_page (remote w3))"])
    using run a b c cw rr by simp
qed

theorem purge_present_reconciles_witness:
  "\<exists>change rv w' pre k k'.
      native_python_main (server_api 20) True example_requests ''present'' False example_remote_old =
        (Inr (change, rv, remote example_remote_old, remote w'), w')
    \<and> set (map var_id (remote w')) =
        set (map var_id [stored ''FOO'' ''2'' False, stored ''BAR'' ''x'' False])
    \<and> list_all (\<lambda>x. var_id x \<notin> set (map var_id [stored ''FOO'' ''2'' False, stored ''BAR'' ''x'' False]))
         (rv_removed rv)
    \<and> list_all (\<lambda>x. var_id x \<in> set (map var_id [stored ''FOO'' ''2'' False, stored ''BAR'' ''x'' False])
                      \<or> filter_attributes x \<in> set (rv_removed rv)) (remote example_remote_old)
    \<and> calls w' = pre @ list_calls 1 (Suc k)
         @ map (\<lambda>x. DeleteCall (fst (var_id x)) (snd (var_id x)) True) (rv_removed rv)
         @ list_calls 1 (Suc k')"
proof -
  have h1: "0 < (20::nat)" by simp
  have h2: "distinct (map var_id (remote example_remote_old))" by code_simp
  have h3: "list_all (\<lambda>x. d_extra x = Mapping.empty) example_requests" by code_simp
  have h4: "normalize_loop example_requests =
              Inr [stored ''FOO'' ''2'' False, stored ''BAR'' ''x'' False]" by code_simp
  show ?thesis by (rule purge_present_reconciles[OF h1 h2 h3 h4])
qed

section \<open>Running state present twice (C5)\<close>

lemma state_present_keep_server:
  "\<exists>rv w'.
      state_present (server_api n) False False requested (filter_returned_variables (remote w)) rv0 w
        = (Inr rv, w')
    \<and> remote w' =
         server_apply (remote w)
           (filter (\<lambda>r. r \<notin> set (filter_returned_variables (remote w))) requested)"
proof -
  let ?cands = "filter (\<lambda>r. r \<notin> set (filter_returned_variables (remote w))) requested"
  obtain r1 w1 where a: "add_or_update_loop (server_api n) False ?cands rv0 w = (r1, w1)" by force
  from add_or_update_loop_server[OF a] obtain rv1 where
    "r1 = Inr rv1" "remote w1 = server_apply (remote w) ?cands" by blast
  with a show ?thesis by (simp add: state_present_def Let_def)
qed

lemma native_python_main_present_server:
  assumes n: "0 < per_page"
    and d: "distinct (map var_id (remote w))"
    and pl: "list_all (\<lambda>x. d_extra x = Mapping.empty) requested_variables"
    and nm: "normalize_loop requested_variables = Inr requested"
  shows "\<exists>change rv w'.
      native_python_main (server_api per_page) purge requested_variables ''present'' False w =
        (Inr (change, rv, remote w, remote w'), w')
    \<and> remote w' =
         (if purge then filter (\<lambda>x. var_id x \<in> var_id ` set requested) else (\<lambda>s. s))
           (server_apply (remote w)
              (filter (\<lambda>r. r \<notin> set (filter_returned_variables (remote w))) requested))"
proof -
  let ?sweep = "list_calls 1 (Suc (length (paginate per_page (remote w))))"
  let ?w1 = "w\<lparr>calls := calls w @ ?sweep\<rparr>"
  let ?w2 = "?w1\<lparr>calls := calls ?w1 @ ?sweep\<rparr>"
  let ?s1 = "server_apply (remote w)
              (filter (\<lambda>r. r \<notin> set (filter_returned_variables (remote w))) requested)"
  have l1: "list_all_instance_variables (server_api per_page) w = (remote w, ?w1)"
    by (rule server_list_all[OF n])
  have l2: "list_all_instance_variables (server_api per_page) ?w1 = (remote w, ?w2)"
    using server_list_all[OF n, of ?w1] by simp
  have plain: "\<And>c. c \<in> set requested \<Longrightarrow> create_payload c = c \<and> filter_attributes c = c"
    using normalize_loop_plain[OF nm pl] .
  have d2: "distinct (map var_id (remote ?w2))" using d by simp
  have "\<exists>rv w3. state_present (server_api per_page) False purge requested
           (filter_returned_variables (remote w)) empty_return_value ?w2 = (Inr rv, w3)
      \<and> remote w3 = (if purge then filter (\<lambda>x. var_id x \<in> var_id ` set requested) else (\<lambda>s. s)) ?s1"
  proof (cases purge)
    case True
    with state_present_purge_server[OF n d2 plain, of requested empty_return_value]
    show ?thesis by auto
  next
    case False
    with state_present_keep_server[of per_page requested ?w2 empty_return_value]
    show ?thesis by auto
  qed
  then obtain rv w3 where
    sp: "state_present (server_api per_page) False purge requested
           (filter_returned_variables (remote w)) empty_return_value ?w2 = (Inr rv, w3)"
    and rw: "remote w3 = (if purge then filter (\<lambda>x. var_id x \<in> var_id ` set requested) else (\<lambda>s. s)) ?s1"
    by blast
  let ?w4 = "w3\<lparr>calls := calls w3 @ list_calls 1 (Suc (length (paginate per_page (remote w3))))\<rparr>"
  have l3: "list_all_instance_variables (server_api per_page) w3 = (remote w3, ?w4)"
    by (rule server_list_all[OF n])
  have "native_python_main (server_api per_page) purge requested_variables ''present'' False w =
        (Inr (rv_added rv @ rv_removed rv @ rv_updated rv \<noteq> [], rv, remote w, remote ?w4), ?w4)"
    using l1 l2 nm sp l3 by (simp add: native_python_main_def Let_def)
  moreover have "remote ?w4 = remote w3" by simp
  ultimately show ?thesis using rw by metis
qed


lemma applied_holds_requested:
  assumes pl: "\<And>c. c \<in> set requested \<Longrightarrow> create_payload c = c \<and> filter_attributes c = c"
    and inj: "inj_on var_id (set requested)"
    and r: "r \<in> set requested"
  shows "\<exists>y \<in> set (server_apply s0 (filter (\<lambda>r. r \<notin> set (filter_returned_variables s0)) requested)).
           filter_attributes y = r"
proof -
  let ?cands = "filter (\<lambda>r. r \<notin> set (filter_returned_variables s0)) requested"
  show ?thesis
  proof (cases "r \<in> set (filter_returned_variables s0)")
    case True
    then obtain y where y: "y \<in> set s0" "r = filter_attributes y"
      by (auto simp: set_filter_returned_variables)
    have "var_id y \<notin> var_id ` set ?cands"
    proof
      assume "var_id y \<in> var_id ` set ?cands"
      then obtain c where c: "c \<in> set requested" "c \<notin> set (filter_returned_variables s0)"
        "var_id c = var_id y" by auto
      with y have "var_id c = var_id r" by simp
      with inj c(1) r have "c = r" by (auto dest: inj_onD)
      with c(2) True show False by simp
    qed
    with y(1) have "y \<in> set (server_apply s0 ?cands)" by (rule server_apply_keeps)
    with y(2) show ?thesis by auto
  next
    case False
    with r have "r \<in> set ?cands" by simp
    from server_apply_last[OF this, of s0] obtain c' where
      c': "c' \<in> set ?cands" "var_id c' = var_id r" "create_payload c' \<in> set (server_apply s0 ?cands)"
      by blast
    then have "c' \<in> set requested" by simp
    with inj c'(2) r have "c' = r" by (auto dest: inj_onD)
    with c'(3) pl[OF r] show ?thesis by (intro bexI[of _ r]) simp_all
  qed
qed

lemma native_python_main_present_noop:
  assumes n: "0 < per_page"
    and nm: "normalize_loop requested_variables = Inr requested"
    and sub: "set requested \<subseteq> filter_attributes ` set (remote w)"
    and pur: "purge \<Longrightarrow> filter_attributes ` set (remote w) \<subseteq> set requested"
  shows "\<exists>w'. native_python_main (server_api per_page) purge requested_variables ''present'' False w =
        (Inr (False, empty_return_value, remote w, remote w), w')
     \<and> remote w' = remote w
     \<and> \<not> list_ex is_mutating (drop (length (calls w)) (calls w'))"
proof -
  let ?sweep = "list_calls 1 (Suc (length (paginate per_page (remote w))))"
  let ?w1 = "w\<lparr>calls := calls w @ ?sweep\<rparr>"
  let ?w2 = "?w1\<lparr>calls := calls ?w1 @ ?sweep\<rparr>"
  let ?w3 = "?w2\<lparr>calls := calls ?w2 @ ?sweep\<rparr>"
  let ?w4 = "?w3\<lparr>calls := calls ?w3 @ ?sweep\<rparr>"
  have l1: "list_all_instance_variables (server_api per_page) w = (remote w, ?w1)"
    by (rule server_list_all[OF n])
  have l2: "list_all_instance_variables (server_api per_page) ?w1 = (remote w, ?w2)"
    using server_list_all[OF n, of ?w1] by simp
  have l3: "list_all_instance_variables (server_api per_page) ?w2 = (remote w, ?w3)"
    using server_list_all[OF n, of ?w2] by simp
  have l4: "list_all_instance_variables (server_api per_page) ?w3 = (remote w, ?w4)"
    using server_list_all[OF n, of ?w3] by simp
  have c: "filter (\<lambda>x. x \<notin> set (filter_returned_variables (remote w))) requested = []"
    using sub by (auto simp: filter_empty_conv set_filter_returned_variables)
  have nomut: "\<not> list_ex is_mutating ?sweep" by (simp add: list_calls_def list_ex_iff)
  show ?thesis
  proof (cases purge)
    case False
    have sp: "state_present (server_api per_page) False purge requested
           (filter_returned_variables (remote w)) empty_return_value ?w2 = (Inr empty_return_value, ?w2)"
      using False c by (simp add: state_present_def)
    have "native_python_main (server_api per_page) purge requested_variables ''present'' False w =
        (Inr (False, empty_return_value, remote w, remote w), ?w3)"
      using l1 l2 nm sp l3 by (simp add: native_python_main_def Let_def empty_return_value_def)
    then show ?thesis using nomut by (intro exI[of _ ?w3]) (simp add: list_ex_iff)
  next
    case True
    have r: "filter (\<lambda>x. x \<notin> set requested) (filter_returned_variables (remote w)) = []"
      using pur[OF True] by (auto simp: filter_empty_conv set_filter_returned_variables)
    have sp: "state_present (server_api per_page) False purge requested
           (filter_returned_variables (remote w)) empty_return_value ?w2 = (Inr empty_return_value, ?w3)"
      using True c r l3 by (simp add: state_present_def)
    have "native_python_main (server_api per_page) purge requested_variables ''present'' False w =
        (Inr (False, empty_return_value, remote w, remote w), ?w4)"
      using l1 l2 nm sp l4 by (simp add: native_python_main_def Let_def empty_return_value_def)
    then show ?thesis using nomut by (intro exI[of _ ?w4]) (simp add: list_ex_iff)
  qed
qed

text \<open>
  C5, as stated, fails. The request names FOO twice, with the values 1 and 2, and the
  remote is empty. The first run adds FOO = 1 and updates it to 2. The second run finds
  FOO = 2, misses FOO = 1, and updates again: it reports a change and leaves FOO = 1.
\<close>

theorem present_rerun_with_duplicate_key_changes:
  "fst (native_python_main (server_api 20) False duplicate_requests ''present'' False empty_remote) =
     Inr (True,
          \<lparr>rv_added = [stored ''FOO'' ''1'' False], rv_updated = [stored ''FOO'' ''2'' False],
           rv_removed = [], rv_untouched = []\<rparr>,
          [], [stored ''FOO'' ''2'' False])
   \<and> fst (native_python_main (server_api 20) False duplicate_requests ''present'' False
        (snd (native_python_main (server_api 20) False duplicate_requests ''present'' False
                empty_remote))) =
     Inr (True,
          \<lparr>rv_added = [], rv_updated = [stored ''FOO'' ''1'' False],
           rv_removed = [], rv_untouched = []\<rparr>,
          [stored ''FOO'' ''2'' False], [stored ''FOO'' ''1'' False])"
  by code_simp

text \<open>
  C5, amended. When requested variables (defaults filled in) that share a
  (key, environment_scope) pair are equal in all attributes, a real run with state
  \<^verbatim>\<open>'present'\<close> on the reference server returns, and the same run on the world it
  leaves returns with
  \<^verbatim>\<open>changed = False\<close> and empty added, updated and removed lists, issues no
  mutating call and leaves the remote set as it found it.
\<close>

theorem present_rerun_changes_nothing:
  assumes n: "0 < per_page"
    and d: "distinct (map var_id (remote w))"
    and pl: "list_all (\<lambda>x. d_extra x = Mapping.empty) requested_variables"
    and nm: "normalize_loop requested_variables = Inr requested"
    and inj: "inj_on var_id (set requested)"
  shows "\<exists>change rv w1 w2.
      native_python_main (server_api per_page) purge requested_variables ''present'' False w =
        (Inr (change, rv, remote w, remote w1), w1)
    \<and> native_python_main (server_api per_page) purge requested_variables ''present'' False w1 =
        (Inr (False, empty_return_value, remote w1, remote w1), w2)
    \<and> remote w2 = remote w1
    \<and> \<not> list_ex is_mutating (drop (length (calls w1)) (calls w2))"
proof -
  let ?s1 = "server_apply (remote w)
              (filter (\<lambda>r. r \<notin> set (filter_returned_variables (remote w))) requested)"
  from native_python_main_present_server[OF n d pl nm, of purge] obtain change rv w1 where
    run1: "native_python_main (server_api per_page) purge requested_variables ''present'' False w =
        (Inr (change, rv, remote w, remote w1), w1)"
    and rw: "remote w1 =
         (if purge then filter (\<lambda>x. var_id x \<in> var_id ` set requested) else (\<lambda>s. s)) ?s1"
    by blast
  have plain: "\<And>c. c \<in> set requested \<Longrightarrow> create_payload c = c \<and> filter_attributes c = c"
    using normalize_loop_plain[OF nm pl] .
  have sub: "set requested \<subseteq> filter_attributes ` set (remote w1)"
  proof
    fix r assume r: "r \<in> set requested"
    from applied_holds_requested[OF plain inj r, of "remote w"] obtain y where
      y: "y \<in> set ?s1" "filter_attributes y = r" by blast
    then have "var_id y = var_id r" by (metis var_id_filter_attributes)
    with r have "var_id y \<in> var_id ` set requested" by simp
    with y(1) have "y \<in> set (remote w1)" by (simp add: rw)
    with y(2) show "r \<in> filter_attributes ` set (remote w1)" by force
  qed
  have pur: "purge \<Longrightarrow> filter_attributes ` set (remote w1) \<subseteq> set requested"
  proof
    fix x assume p: purge and "x \<in> filter_attributes ` set (remote w1)"
    then obtain y where y: "y \<in> set ?s1" "var_id y \<in> var_id ` set requested" "x = filter_attributes y"
      by (auto simp: rw)
    with applied_match[OF d plain y(1) y(2)] show "x \<in> set requested" by simp
  qed
  from native_python_main_present_noop[OF n nm sub pur, of purge] obtain w2 where
    "native_python_main (server_api per_page) purge requested_variables ''present'' False w1 =
        (Inr (False, empty_return_value, remote w1, remote w1), w2)"
    "remote w2 = remote w1" "\<not> list_ex is_mutating (drop (length (calls w1)) (calls w2))"
    by blast
  with run1 show ?thesis by blast
qed

theorem present_rerun_changes_nothing_witness:
  "\<exists>change rv w1 w2.
      native_python_main (server_api 20) True example_requests ''present'' False example_remote_old =
        (Inr (change, rv, remote example_remote_old, remote w1), w1)
    \<and> native_python_main (server_api 20) True example_requests ''present'' False w1 =
        (Inr (False, empty_return_value, remote w1, remote w1), w2)
    \<and> remote w2 = remote w1
    \<and> \<not> list_ex is_mutating (drop (length (calls w1)) (calls w2))"
proof -
  have h1: "0 < (20::nat)" by simp
  have h2: "distinct (map var_id (remote example_remote_old))" by code_simp
  have h3: "list_all (\<lambda>x. d_extra x = Mapping.empty) example_requests" by code_simp
  have h4: "normalize_loop example_requests =
              Inr [stored ''FOO'' ''2'' False, stored ''BAR'' ''x'' False]" by code_simp
  have h5: "inj_on var_id (set [stored ''FOO'' ''2'' False, stored ''BAR'' ''x'' False])"
    by (simp add: var_id_def stored_def py_get_def)
  show ?thesis by (rule present_rerun_changes_nothing[OF h1 h2 h3 h4 h5])
qed

section \<open>State absent with purge\<close>

text \<open>
  With state \<^verbatim>\<open>'absent'\<close> and purge, a real run on the reference server whose
  variables all carry \<^verbatim>\<open>value\<close> and \<^verbatim>\<open>variable_type\<close> returns, reports every
  remote variable as removed and leaves the remote set empty, whatever is requested.
\<close>

lemma pop_loop_Inr:
  "list_all (\<lambda>x. d_value x \<noteq> None \<and> d_variable_type x \<noteq> None) xs \<Longrightarrow>
   pop_loop xs = Inr (map (\<lambda>x. x\<lparr>d_value := None, d_variable_type := None\<rparr>) xs)"
  by (induction xs) (auto simp: pop_value_and_type_def)

lemma normalize_loop_has_value_and_type:
  "normalize_loop xs = Inr ys \<Longrightarrow>
   list_all (\<lambda>x. d_value x \<noteq> None \<and> d_variable_type x \<noteq> None) ys"
proof (induction xs arbitrary: ys)
  case Nil
  then show ?case by simp
next
  case (Cons x xs)
  from Cons.prems(1) obtain y ys' where
    y: "normalize_item x = Inr y" "normalize_loop xs = Inr ys'" "ys = y # ys'"
    by (auto split: sum.splits)
  with Cons.IH[of ys'] normalize_item_fields(4,7)[OF y(1)] show ?case by auto
qed

lemma absent_purge_empties_server:
  assumes n: "0 < per_page"
    and d: "distinct (map var_id (remote w))"
    and vt: "list_all (\<lambda>x. d_value x \<noteq> None \<and> d_variable_type x \<noteq> None) (remote w)"
    and nm: "normalize_loop requested_variables = Inr requested"
  shows "\<exists>rv w'.
      native_python_main (server_api per_page) True requested_variables ''absent'' False w =
        (Inr (remote w \<noteq> [], rv, remote w, []), w')
    \<and> remote w' = []
    \<and> length (rv_removed rv) = length (remote w)"
proof -
  let ?sweep = "list_calls 1 (Suc (length (paginate per_page (remote w))))"
  let ?w1 = "w\<lparr>calls := calls w @ ?sweep\<rparr>"
  let ?w2 = "?w1\<lparr>calls := calls ?w1 @ ?sweep\<rparr>"
  let ?pop = "\<lambda>x. x\<lparr>d_value := None, d_variable_type := None\<rparr>"
  let ?ex = "map ?pop (filter_returned_variables (remote w))"
  have l1: "list_all_instance_variables (server_api per_page) w = (remote w, ?w1)"
    by (rule server_list_all[OF n])
  have l2: "list_all_instance_variables (server_api per_page) ?w1 = (remote w, ?w2)"
    using server_list_all[OF n, of ?w1] by simp
  have "list_all (\<lambda>x. d_value x \<noteq> None \<and> d_variable_type x \<noteq> None)
          (filter_returned_variables (remote w))"
    using vt by (simp add: filter_returned_variables_def filter_attributes_def list_all_iff)
  then have pe: "pop_loop (filter_returned_variables (remote w)) = Inr ?ex"
    by (rule pop_loop_Inr)
  have pr: "pop_loop requested = Inr (map ?pop requested)"
    using normalize_loop_has_value_and_type[OF nm] by (rule pop_loop_Inr)
  have ids: "map var_id ?ex = map var_id (remote w)"
    by (simp add: filter_returned_variables_def filter_attributes_def var_id_def comp_def)
  have dr: "distinct (map var_id ?ex)" using d ids by simp
  have "set (map var_id ?ex) = set (map var_id (remote w))" by (simp only: ids)
  then have ie: "var_id ` set ?ex = var_id ` set (remote w)" by (simp only: set_map)
  have sr: "var_id ` set ?ex \<subseteq> var_id ` set (remote ?w2)"
    unfolding ie by simp
  from remove_loop_server[OF dr sr, of per_page empty_return_value] obtain w3 where
    rl: "remove_loop (server_api per_page) False ?ex empty_return_value ?w2 =
           (Inr (empty_return_value\<lparr>rv_removed := rv_removed empty_return_value @ ?ex\<rparr>), w3)"
    and rw: "remote w3 = filter (\<lambda>x. var_id x \<notin> var_id ` set ?ex) (remote ?w2)"
    by blast
  have e: "remote w3 = []"
    unfolding rw ie by (simp add: filter_empty_conv)
  let ?rv = "empty_return_value\<lparr>rv_removed := rv_removed empty_return_value @ ?ex\<rparr>"
  have sa: "state_absent (server_api per_page) False True requested
              (filter_returned_variables (remote w)) empty_return_value ?w2 = (Inr ?rv, w3)"
    using pe pr rl by (simp add: state_absent_def)
  let ?w4 = "w3\<lparr>calls := calls w3 @ list_calls 1 (Suc (length (paginate per_page (remote w3))))\<rparr>"
  have l3: "list_all_instance_variables (server_api per_page) w3 = (remote w3, ?w4)"
    by (rule server_list_all[OF n])
  have "native_python_main (server_api per_page) True requested_variables ''absent'' False w =
        (Inr (remote w \<noteq> [], ?rv, remote w, []), ?w4)"
    using l1 l2 nm sa l3 e
    by (simp add: native_python_main_def Let_def empty_return_value_def filter_returned_variables_def)
  then show ?thesis using e
    by (intro exI[of _ ?rv] exI[of _ ?w4])
       (simp add: empty_return_value_def filter_returned_variables_def)
qed

section \<open>Check mode\<close>

text \<open>
  In check mode \<^verbatim>\<open>native_python_main\<close> only lists: whatever the result, the remote is
  the one it started from and the log has grown by listing calls only.
\<close>

lemma reads_only_refl [simp]: "reads_only w w"
  by (simp add: reads_only_def)

lemma reads_only_trans: "reads_only a b \<Longrightarrow> reads_only b c \<Longrightarrow> reads_only a c"
  by (auto simp: reads_only_def list_ex_iff)

lemma reads_only_list_all: "list_all_instance_variables api w = (xs, w') \<Longrightarrow> reads_only w w'"
  by (auto simp: list_all_instance_variables_sweep reads_only_def list_calls_def list_ex_iff)

lemma reads_only_add_or_update_loop:
  "add_or_update_loop api True items rv w = (r, w') \<Longrightarrow> w' = w"
  by (induction items arbitrary: rv) (auto simp: create_variable_def)

lemma reads_only_remove_loop:
  "remove_loop api True items rv w = (r, w') \<Longrightarrow> w' = w"
  by (induction items arbitrary: rv) (auto simp: delete_variable_def)

lemma reads_only_state_present:
  "state_present api True purge req ex rv w = (r, w') \<Longrightarrow> reads_only w w'"
  by (auto simp: state_present_def Let_def split: prod.splits sum.splits if_splits
           dest!: reads_only_add_or_update_loop reads_only_remove_loop reads_only_list_all)

lemma reads_only_state_absent:
  "state_absent api True purge req ex rv w = (r, w') \<Longrightarrow> reads_only w w'"
  by (auto simp: state_absent_def Let_def split: prod.splits sum.splits if_splits
           dest!: reads_only_remove_loop)

lemma check_mode_reads_only:
  "native_python_main api purge req st True w = (r, w') \<Longrightarrow> reads_only w w'"
  by (auto simp: native_python_main_def Let_def split: prod.splits sum.splits if_splits
           dest!: reads_only_state_present reads_only_state_absent reads_only_list_all
           intro: reads_only_trans)

text \<open>
  In check mode the updated list is empty whenever every remote variable has a key:
  the requested variables have lost their \<^verbatim>\<open>'name'\<close> when \<^verbatim>\<open>compare\<close> reads it.
\<close>

lemma normalize_loop_name:
  "normalize_loop xs = Inr ys \<Longrightarrow> c \<in> set ys \<Longrightarrow> d_name c = None"
proof (induction xs arbitrary: ys)
  case Nil
  then show ?case by simp
next
  case (Cons x xs)
  from Cons.prems(1) obtain y ys' where
    y: "normalize_item x = Inr y" "normalize_loop xs = Inr ys'" "ys = y # ys'"
    by (auto split: sum.splits)
  with Cons show ?case using normalize_item_fields(1)[of x y] by auto
qed

lemma compare_loop_updated:
  assumes "\<And>c. c \<in> set requested \<Longrightarrow> d_name c = None"
    and "\<And>p. p \<in> set key_scope \<Longrightarrow> fst p \<noteq> PNone"
  shows "fst (snd (compare_loop existing key_scope requested (untouched, updated, added))) = updated"
  using assms(1)
proof (induction requested arbitrary: untouched updated added)
  case Nil
  then show ?case by simp
next
  case (Cons var rest)
  have "(py_get (d_name var), py_get (d_environment_scope var)) \<notin> set key_scope"
  proof
    assume "(py_get (d_name var), py_get (d_environment_scope var)) \<in> set key_scope"
    from assms(2)[OF this] Cons.prems[of var] show False by (simp add: py_get_def)
  qed
  then show ?case using Cons by (simp add: Let_def)
qed

lemma check_mode_never_updated:
  assumes "normalize_loop requested_variables = Inr requested"
    and "list_all (\<lambda>x. py_get (d_key x) \<noteq> PNone) existing_variables"
  shows "fst (snd (compare requested existing_variables ''present'')) = []"
proof -
  let ?ks = "map (\<lambda>item. (py_get (d_key item), py_get (d_environment_scope item))) existing_variables"
  have nm: "\<And>c. c \<in> set requested \<Longrightarrow> d_name c = None"
    using normalize_loop_name[OF assms(1)] .
  have ks: "\<And>p. p \<in> set ?ks \<Longrightarrow> fst p \<noteq> PNone"
    using assms(2) by (auto simp: list_all_iff)
  have "fst (snd (compare_loop existing_variables ?ks requested ([], [], []))) = []"
    using nm ks by (rule compare_loop_updated)
  then show ?thesis by (simp add: compare_def)
qed

section \<open>Where the module departs from its description\<close>

text \<open>
  C2. Check mode, state \<^verbatim>\<open>'present'\<close>: the remote holds FOO with value 1, the request
  is FOO with value 2. Key and scope match and the value differs, yet the variable is
  reported as added and not as updated: \<^verbatim>\<open>compare\<close> looks the pair up under
  \<^verbatim>\<open>var.get('name')\<close>, and \<^verbatim>\<open>native_python_main\<close> has renamed that key to
  \<^verbatim>\<open>'key'\<close> before. No mutating call is logged and the remote is unchanged.
\<close>

theorem check_mode_changed_variable_is_added:
  "main (server_api 20)
     \<lparr>p_purge = False, p_vars = [], p_variables = [request ''FOO'' (PStr ''2'') False],
      p_state = ''present'', p_check_mode = True\<rparr> example_remote =
   (Inr (True, \<lparr>rv_added = [PStr ''FOO''], rv_updated = [], rv_removed = [], rv_untouched = []\<rparr>),
    \<lparr>remote = [stored ''FOO'' ''1'' False],
     calls = [AuthCall, ListCall 1, ListCall 2, ListCall 1, ListCall 2, ListCall 1, ListCall 2]\<rparr>)"
  by code_simp

text \<open>
  C7. Real run, state \<^verbatim>\<open>'present'\<close>: the remote holds FOO with value 1 and the same is
  requested. The variable is in both snapshots, and the untouched list holds
  \<^verbatim>\<open>None\<close> in place of its key: \<^verbatim>\<open>main\<close> reads \<^verbatim>\<open>x.get('name')\<close> from the
  remote attributes, which carry the name under \<^verbatim>\<open>'key'\<close>.
\<close>

theorem real_run_untouched_is_None:
  "main (server_api 20)
     \<lparr>p_purge = False, p_vars = [], p_variables = [request ''FOO'' (PStr ''1'') False],
      p_state = ''present'', p_check_mode = False\<rparr> example_remote =
   (Inr (False, \<lparr>rv_added = [], rv_updated = [], rv_removed = [], rv_untouched = [PNone]\<rparr>),
    \<lparr>remote = [stored ''FOO'' ''1'' False],
     calls = [AuthCall, ListCall 1, ListCall 2, ListCall 1, ListCall 2, ListCall 1, ListCall 2]\<rparr>)"
  by code_simp

text \<open>
  C4. Real run, state \<^verbatim>\<open>'absent'\<close>, no purge: the remote holds a masked FOO, the
  request names FOO with the default \<^verbatim>\<open>masked = False\<close>. Key and scope match, and
  nothing is deleted: only \<^verbatim>\<open>value\<close> and \<^verbatim>\<open>variable_type\<close> are popped, so
  \<^verbatim>\<open>masked\<close> and \<^verbatim>\<open>protected\<close> still take part in the comparison.
\<close>

theorem absent_keeps_variable_with_other_masked:
  "main (server_api 20)
     \<lparr>p_purge = False, p_vars = [], p_variables = [request ''FOO'' PNone False],
      p_state = ''absent'', p_check_mode = False\<rparr>
     \<lparr>remote = [stored ''FOO'' ''1'' True], calls = []\<rparr> =
   (Inr (False, \<lparr>rv_added = [], rv_updated = [], rv_removed = [], rv_untouched = [PNone]\<rparr>),
    \<lparr>remote = [stored ''FOO'' ''1'' True],
     calls = [AuthCall, ListCall 1, ListCall 2, ListCall 1, ListCall 2, ListCall 1, ListCall 2]\<rparr>)"
  by code_simp

text \<open>
  C8. State \<^verbatim>\<open>'present'\<close>, and the variable FOO is given without a value in the
  legacy form \<^verbatim>\<open>vars = {FOO: None}\<close>. The invocation fails before any call, but not
  with the validation error: \<^verbatim>\<open>main\<close> calls \<^verbatim>\<open>vars_to_variables\<close>, which the
  module neither defines nor imports, and the NameError ends the run before the check
  \<^verbatim>\<open>x['value'] is None\<close> is reached.
\<close>

theorem legacy_vars_missing_value_is_NameError:
  "main (server_api 20)
     \<lparr>p_purge = False, p_vars = [(''FOO'', PNone)], p_variables = [],
      p_state = ''present'', p_check_mode = False\<rparr> example_remote =
   (Inl (NameError ''vars_to_variables''), example_remote)"
  by (simp add: main_def)

end
